theory Spec2Isabelle
  imports Complex_Main "HOL-Library.Word" "HOL-Library.Monad_Syntax"
begin

section \<open>Strings of the runtime\<close>

text \<open>
  A JavaScript string is a sequence of 16-bit code units, and \<open>length\<close> counts code
  units. The literals of the source are ASCII; \<open>js\<close> embeds them.
\<close>

type_synonym jschar = "16 word"
type_synonym jsstring = "jschar list"

definition ch :: "char \<Rightarrow> jschar" where
  "ch c = of_nat (of_char c)"

definition js :: "string \<Rightarrow> jsstring" where
  "js s = map ch s"

text \<open>
  White space and line terminators of ECMAScript (the set \<open>\s\<close> of a regular
  expression, and what \<open>String.prototype.trim\<close> strips): TAB, LF, VT, FF, CR, SP,
  NBSP, U+1680, U+2000..U+200A, LS, PS, U+202F, U+205F, U+3000 and U+FEFF.
\<close>

definition isWhiteSpace :: "jschar \<Rightarrow> bool" where
  "isWhiteSpace c =
     ((9 \<le> c \<and> c \<le> 13) \<or> c = 32 \<or> c = 160 \<or> c = 5760 \<or> (8192 \<le> c \<and> c \<le> 8202)
      \<or> c = 8232 \<or> c = 8233 \<or> c = 8239 \<or> c = 8287 \<or> c = 12288 \<or> c = 65279)"

definition trim :: "jsstring \<Rightarrow> jsstring" where
  "trim s = rev (dropWhile isWhiteSpace (rev (dropWhile isWhiteSpace s)))"

text \<open>\<open>s.slice(0, n)\<close> for a literal \<open>n \<ge> 0\<close>.\<close>

definition slice0 :: "nat \<Rightarrow> jsstring \<Rightarrow> jsstring" where
  "slice0 n s = take n s"

text \<open>
  \<open>s.replace(pat, rep)\<close> with a string pattern: the first occurrence of \<open>pat\<close> is
  replaced, and a string without one is returned as it is.
\<close>

fun replace :: "jsstring \<Rightarrow> jsstring \<Rightarrow> jsstring \<Rightarrow> jsstring" where
  "replace pat rep [] = (if pat = [] then rep else [])"
| "replace pat rep (c # cs) =
     (if take (length pat) (c # cs) = pat then rep @ drop (length pat) (c # cs)
      else c # replace pat rep cs)"

subsection \<open>Decimal digits\<close>

definition isDigit :: "jschar \<Rightarrow> bool" where
  "isDigit c = (48 \<le> c \<and> c \<le> 57)"

definition digitVal :: "jschar \<Rightarrow> nat" where
  "digitVal c = unat c - 48"

definition digitChar :: "nat \<Rightarrow> jschar" where
  "digitChar n = of_nat (48 + n)"

text \<open>\<open>digits k n\<close>: the last \<open>k\<close> decimal digits of \<open>n\<close>, zero-padded on the left.\<close>

fun digits :: "nat \<Rightarrow> nat \<Rightarrow> jsstring" where
  "digits 0 n = []"
| "digits (Suc k) n = digits k (n div 10) @ [digitChar (n mod 10)]"

definition number :: "jsstring \<Rightarrow> nat" where
  "number s = foldl (\<lambda>a c. 10 * a + digitVal c) 0 s"

subsection \<open>Regular expressions\<close>

text \<open>
  The fragment of the regular expressions the source uses, with the matcher of
  ECMAScript (22.2.2): a pattern is matched against the input with a continuation that
  must accept the rest; an alternative tries its left side first, and \<open>+\<close> on a
  character class is greedy and backtracks. \<open>test\<close> of a pattern written
  \<open>/^...$/\<close> (no flags) asks for a match of the whole string.
\<close>

datatype regex =
  Atom "jschar \<Rightarrow> bool"
  | Many1 "jschar \<Rightarrow> bool"
  | Then regex regex
  | Or regex regex
  | Eps

fun matchk :: "regex \<Rightarrow> jsstring \<Rightarrow> (jsstring \<Rightarrow> bool) \<Rightarrow> bool" where
  "matchk (Atom p) s k = (case s of [] \<Rightarrow> False | c # cs \<Rightarrow> p c \<and> k cs)"
| "matchk (Many1 p) s k =
     (case s of [] \<Rightarrow> False | c # cs \<Rightarrow> p c \<and> (matchk (Many1 p) cs k \<or> k cs))"
| "matchk (Then a b) s k = matchk a s (\<lambda>r. matchk b r k)"
| "matchk (Or a b) s k = (matchk a s k \<or> matchk b s k)"
| "matchk Eps s k = k s"

definition test :: "regex \<Rightarrow> jsstring \<Rightarrow> bool" where
  "test r s = matchk r s (\<lambda>r. r = [])"

definition lit :: "char \<Rightarrow> regex" where
  "lit c = Atom (\<lambda>x. x = ch c)"

definition digit :: regex where
  "digit = Atom isDigit"

fun seq :: "regex list \<Rightarrow> regex" where
  "seq [] = Eps"
| "seq (r # rs) = Then r (seq rs)"

section \<open>Time values and dates of the runtime\<close>

text \<open>
  Time values are milliseconds since the epoch; every time value this program computes
  is an integer below \<open>2^53\<close>, which a JavaScript number holds exactly, so they are
  modelled as \<open>int\<close>, and \<open>NaN\<close> (the time value of an invalid \<open>Date\<close>) as
  \<open>None\<close>. The functions below are the abstract operations of ECMAScript 21.4.1
  under their names.
\<close>

definition msPerDay :: int where "msPerDay = 86400000"
definition msPerHour :: int where "msPerHour = 3600000"
definition msPerMinute :: int where "msPerMinute = 60000"
definition msPerSecond :: int where "msPerSecond = 1000"

definition Day :: "int \<Rightarrow> int" where
  "Day t = t div msPerDay"

definition DaysInYear :: "int \<Rightarrow> int" where
  "DaysInYear y =
     (if y mod 4 \<noteq> 0 then 365 else if y mod 100 \<noteq> 0 then 366
      else if y mod 400 \<noteq> 0 then 365 else 366)"

definition DayFromYear :: "int \<Rightarrow> int" where
  "DayFromYear y =
     365 * (y - 1970) + (y - 1969) div 4 - (y - 1901) div 100 + (y - 1601) div 400"

definition TimeFromYear :: "int \<Rightarrow> int" where
  "TimeFromYear y = msPerDay * DayFromYear y"

text \<open>A year has 365 or 366 days: the step of \<open>DayFromYear\<close>.\<close>

lemma div_step:
  "0 < n \<Longrightarrow> (x + 1) div n = x div n + (if (x + 1) mod n = 0 then 1 else 0)"
  for x n :: int
proof -
  assume n: "0 < n"
  define q where "q = x div n"
  define r where "r = x mod n"
  have e: "x = n * q + r" by (simp add: q_def r_def)
  have r: "0 \<le> r" "r < n" using n by (simp_all add: r_def)
  show ?thesis
  proof (cases "r + 1 = n")
    case True
    then have "x + 1 = n * (q + 1)" using e by (simp add: algebra_simps)
    then have "(x + 1) div n = q + 1 \<and> (x + 1) mod n = 0" using n by simp
    then show ?thesis by (simp add: q_def)
  next
    case False
    then have lt: "r + 1 < n" using r by linarith
    have x1: "x + 1 = (r + 1) + q * n" using e by (simp add: algebra_simps)
    have "(x + 1) div n = q" unfolding x1 using lt r by simp
    moreover have "(x + 1) mod n = r + 1" unfolding x1 using lt r by simp
    ultimately show ?thesis using r by (simp add: q_def)
  qed
qed

lemma mod4_shift: "(y - 1968) mod 4 = 0 \<longleftrightarrow> y mod 4 = 0" for y :: int
  using mod_mult_self2 [of y 4 "- 492"] by simp

lemma mod100_shift: "(y - 1900) mod 100 = 0 \<longleftrightarrow> y mod 100 = 0" for y :: int
  using mod_mult_self2 [of y 100 "- 19"] by simp

lemma mod400_shift: "(y - 1600) mod 400 = 0 \<longleftrightarrow> y mod 400 = 0" for y :: int
  using mod_mult_self2 [of y 400 "- 4"] by simp

lemma mod100_mod4: "y mod 100 = 0 \<Longrightarrow> y mod 4 = 0" for y :: int
proof -
  assume "y mod 100 = 0"
  then have "y = 4 * (25 * (y div 100))" by (simp add: mod_eq_0_iff_dvd dvd_div_eq_mult)
  then show ?thesis by (metis mod_mult_self1_is_0)
qed

lemma mod400_mod100: "y mod 400 = 0 \<Longrightarrow> y mod 100 = 0" for y :: int
proof -
  assume "y mod 400 = 0"
  then have "y = 100 * (4 * (y div 400))" by (simp add: mod_eq_0_iff_dvd dvd_div_eq_mult)
  then show ?thesis by (metis mod_mult_self1_is_0)
qed

lemma DayFromYear_step: "DayFromYear (y + 1) = DayFromYear y + DaysInYear y"
proof -
  have a: "(y + 1 - 1969) div 4 = (y - 1969) div 4 + (if y mod 4 = 0 then 1 else 0)"
    using div_step [of 4 "y - 1969"] mod4_shift [of y] by (simp add: algebra_simps)
  have b: "(y + 1 - 1901) div 100 = (y - 1901) div 100 + (if y mod 100 = 0 then 1 else 0)"
    using div_step [of 100 "y - 1901"] mod100_shift [of y] by (simp add: algebra_simps)
  have c: "(y + 1 - 1601) div 400 = (y - 1601) div 400 + (if y mod 400 = 0 then 1 else 0)"
    using div_step [of 400 "y - 1601"] mod400_shift [of y] by (simp add: algebra_simps)
  show ?thesis
    unfolding DayFromYear_def DaysInYear_def a b c
    using mod100_mod4 [of y] mod400_mod100 [of y] by auto
qed

lemma DaysInYear_bounds: "365 \<le> DaysInYear y \<and> DaysInYear y \<le> 366"
  by (simp add: DaysInYear_def)

text \<open>
  \<open>YearFromTime t\<close> is the largest \<open>y\<close> with \<open>TimeFromYear y \<le> t\<close>. It is computed
  by a search upwards from a year that is not after it (a year has at most 366 days
  and at least 365).
\<close>

function yearSearch :: "int \<Rightarrow> int \<Rightarrow> int" where
  "yearSearch d y = (if DayFromYear (y + 1) \<le> d then yearSearch d (y + 1) else y)"
  by pat_completeness auto
termination
proof (relation "measure (\<lambda>(d, y). nat (d + 1 - DayFromYear (y + 1)))")
  show "wf (measure (\<lambda>(d, y). nat (d + 1 - DayFromYear (y + 1))))"
    by simp
next
  fix d y :: int
  assume le: "DayFromYear (y + 1) \<le> d"
  have "DayFromYear (y + 1) < DayFromYear (y + 1 + 1)"
    using DayFromYear_step [of "y + 1"] DaysInYear_bounds [of "y + 1"] by linarith
  with le show "((d, y + 1), (d, y)) \<in> measure (\<lambda>(d, y). nat (d + 1 - DayFromYear (y + 1)))"
    by simp
qed

definition YearFromDay :: "int \<Rightarrow> int" where
  "YearFromDay d = yearSearch d (1970 + (if 0 \<le> d then d div 366 else d div 365))"

definition YearFromTime :: "int \<Rightarrow> int" where
  "YearFromTime t = YearFromDay (Day t)"

definition InLeapYear :: "int \<Rightarrow> int" where
  "InLeapYear t = (if DaysInYear (YearFromTime t) = 366 then 1 else 0)"

definition DayWithinYear :: "int \<Rightarrow> int" where
  "DayWithinYear t = Day t - DayFromYear (YearFromTime t)"

definition MonthFromTime :: "int \<Rightarrow> int" where
  "MonthFromTime t =
     (let d = DayWithinYear t; l = InLeapYear t in
      if d < 31 then 0 else if d < 59 + l then 1 else if d < 90 + l then 2
      else if d < 120 + l then 3 else if d < 151 + l then 4 else if d < 181 + l then 5
      else if d < 212 + l then 6 else if d < 243 + l then 7 else if d < 273 + l then 8
      else if d < 304 + l then 9 else if d < 334 + l then 10 else 11)"

definition DateFromTime :: "int \<Rightarrow> int" where
  "DateFromTime t =
     (let d = DayWithinYear t; l = InLeapYear t; m = MonthFromTime t in
      if m = 0 then d + 1 else if m = 1 then d - 30 else if m = 2 then d - 58 - l
      else if m = 3 then d - 89 - l else if m = 4 then d - 119 - l
      else if m = 5 then d - 150 - l else if m = 6 then d - 180 - l
      else if m = 7 then d - 211 - l else if m = 8 then d - 242 - l
      else if m = 9 then d - 272 - l else if m = 10 then d - 303 - l else d - 333 - l)"

definition HourFromTime :: "int \<Rightarrow> int" where
  "HourFromTime t = (t div msPerHour) mod 24"

definition MinFromTime :: "int \<Rightarrow> int" where
  "MinFromTime t = (t div msPerMinute) mod 60"

definition SecFromTime :: "int \<Rightarrow> int" where
  "SecFromTime t = (t div msPerSecond) mod 60"

definition msFromTime :: "int \<Rightarrow> int" where
  "msFromTime t = t mod msPerSecond"

definition MakeTime :: "int \<Rightarrow> int \<Rightarrow> int \<Rightarrow> int \<Rightarrow> int" where
  "MakeTime hour mn sec ms = hour * msPerHour + mn * msPerMinute + sec * msPerSecond + ms"

text \<open>
  \<open>MakeDay year month date\<close>: the day number of the first day of month
  \<open>month mod 12\<close> of year \<open>year + month div 12\<close>, plus \<open>date - 1\<close>.
\<close>

definition daysBeforeMonth :: "int \<Rightarrow> int \<Rightarrow> int" where
  "daysBeforeMonth l m =
     (if m = 0 then 0 else if m = 1 then 31 else if m = 2 then 59 + l
      else if m = 3 then 90 + l else if m = 4 then 120 + l else if m = 5 then 151 + l
      else if m = 6 then 181 + l else if m = 7 then 212 + l else if m = 8 then 243 + l
      else if m = 9 then 273 + l else if m = 10 then 304 + l else 334 + l)"

definition MakeDay :: "int \<Rightarrow> int \<Rightarrow> int \<Rightarrow> int" where
  "MakeDay year month date =
     (let ym = year + month div 12; mn = month mod 12;
          l = (if DaysInYear ym = 366 then 1 else 0)
      in DayFromYear ym + daysBeforeMonth l mn + date - 1)"

definition MakeDate :: "int \<Rightarrow> int \<Rightarrow> int" where
  "MakeDate day time = day * msPerDay + time"

definition TimeClip :: "int \<Rightarrow> int option" where
  "TimeClip t = (if \<bar>t\<bar> \<le> 8640000000000000 then Some t else None)"

subsection \<open>Parsing a date-time string\<close>

text \<open>
  \<open>Date_parse\<close> is \<open>Date.parse\<close>, and the time value of \<open>new Date(s)\<close>, on the date-time
  strings of ECMAScript 21.4.1.32 that carry a time and a zone:
  \<open>YYYY-MM-DDTHH:mm\<close> or \<open>\<plusminus>YYYYYY-MM-DDTHH:mm\<close>, then optionally \<open>:ss\<close> and
  \<open>.sss\<close>, then \<open>Z\<close> or \<open>\<plusminus>HH:mm\<close>. These are all the strings the program hands
  to \<open>Date\<close>: the ones its regular expression admits, and the ones \<open>toISOString\<close>
  writes. The element ranges are those of the Node.js runtime the server runs on:
  month 01-12, day 01-31 (a day past the end of its month rolls over in \<open>MakeDay\<close>),
  hour 00-23 or 24:00:00.000, minute and second 00-59, zone 00-23 : 00-59, and no
  year \<open>-000000\<close>; out of range is \<open>NaN\<close>. Other strings are outside this model, which
  answers \<open>None\<close> for them.
\<close>

definition fixedNumber :: "nat \<Rightarrow> jsstring \<Rightarrow> (int \<times> jsstring) option" where
  "fixedNumber k s =
     (if k \<le> length s \<and> list_all isDigit (take k s)
      then Some (int (number (take k s)), drop k s) else None)"

definition symbol :: "char \<Rightarrow> jsstring \<Rightarrow> jsstring option" where
  "symbol c s = (case s of [] \<Rightarrow> None | x # r \<Rightarrow> if x = ch c then Some r else None)"

definition parseYear :: "jsstring \<Rightarrow> (int \<times> jsstring) option" where
  "parseYear s =
     (case s of [] \<Rightarrow> None
      | x # r \<Rightarrow>
          if x = ch CHR ''+'' then fixedNumber 6 r
          else if x = ch CHR ''-'' then
            (case fixedNumber 6 r of None \<Rightarrow> None
             | Some (y, r1) \<Rightarrow> if y = 0 then None else Some (- y, r1))
          else fixedNumber 4 s)"

definition parseSeconds :: "jsstring \<Rightarrow> (int \<times> int \<times> jsstring) option" where
  "parseSeconds s =
     (case symbol CHR '':'' s of None \<Rightarrow> Some (0, 0, s)
      | Some r \<Rightarrow>
          (case fixedNumber 2 r of None \<Rightarrow> None
           | Some (sec, r1) \<Rightarrow>
               (case symbol CHR ''.'' r1 of None \<Rightarrow> Some (sec, 0, r1)
                | Some r2 \<Rightarrow>
                    (case fixedNumber 3 r2 of None \<Rightarrow> None
                     | Some (ms, r3) \<Rightarrow> Some (sec, ms, r3)))))"

text \<open>The zone, in minutes east of UTC.\<close>

definition parseZone :: "jsstring \<Rightarrow> (int \<times> jsstring) option" where
  "parseZone s =
     (case s of [] \<Rightarrow> None
      | x # r \<Rightarrow>
          if x = ch CHR ''Z'' then Some (0, r)
          else if x = ch CHR ''+'' \<or> x = ch CHR ''-'' then
            do {
              (h, r1) \<leftarrow> fixedNumber 2 r;
              r2 \<leftarrow> symbol CHR '':'' r1;
              (m, r3) \<leftarrow> fixedNumber 2 r2;
              if h \<le> 23 \<and> m \<le> 59
              then Some ((if x = ch CHR ''+'' then 1 else - 1) * (h * 60 + m), r3)
              else None
            }
          else None)"

definition Date_parse :: "jsstring \<Rightarrow> int option" where
  "Date_parse s =
     do {
       (year, s1) \<leftarrow> parseYear s;
       s2 \<leftarrow> symbol CHR ''-'' s1;
       (month, s3) \<leftarrow> fixedNumber 2 s2;
       s4 \<leftarrow> symbol CHR ''-'' s3;
       (day, s5) \<leftarrow> fixedNumber 2 s4;
       s6 \<leftarrow> symbol CHR ''T'' s5;
       (hour, s7) \<leftarrow> fixedNumber 2 s6;
       s8 \<leftarrow> symbol CHR '':'' s7;
       (minute, s9) \<leftarrow> fixedNumber 2 s8;
       (sec, ms, s10) \<leftarrow> parseSeconds s9;
       (zone, s11) \<leftarrow> parseZone s10;
       if s11 = [] \<and> 1 \<le> month \<and> month \<le> 12 \<and> 1 \<le> day \<and> day \<le> 31 \<and> minute \<le> 59 \<and> sec \<le> 59
          \<and> (hour \<le> 23 \<or> (hour = 24 \<and> minute = 0 \<and> sec = 0 \<and> ms = 0))
       then TimeClip (MakeDate (MakeDay year (month - 1) day) (MakeTime hour minute sec ms)
                       - zone * msPerMinute)
       else None
     }"

subsection \<open>Date objects\<close>

text \<open>
  A \<open>Date\<close> holds a time value or \<open>NaN\<close>. \<open>new Date(s)\<close> of a string parses it,
  \<open>new Date(n)\<close> of a number clips it, and \<open>toISOString\<close> throws a \<open>RangeError\<close> on
  an invalid date; it writes the year with four digits from 0 to 9999 and with a sign
  and six digits otherwise.
\<close>

datatype error = RangeError | TypeError

type_synonym date = "int option"

definition Date_of_string :: "jsstring \<Rightarrow> date" where
  "Date_of_string s = Date_parse s"

definition Date_of_number :: "int option \<Rightarrow> date" where
  "Date_of_number n = (case n of None \<Rightarrow> None | Some t \<Rightarrow> TimeClip t)"

definition getTime :: "date \<Rightarrow> int option" where
  "getTime d = d"

definition getUTCMinutes :: "date \<Rightarrow> int option" where
  "getUTCMinutes d = map_option MinFromTime d"

definition yearString :: "int \<Rightarrow> jsstring" where
  "yearString y =
     (if 0 \<le> y \<and> y \<le> 9999 then digits 4 (nat y)
      else (if y < 0 then js ''-'' else js ''+'') @ digits 6 (nat \<bar>y\<bar>))"

definition toISOString :: "date \<Rightarrow> error + jsstring" where
  "toISOString d =
     (case d of None \<Rightarrow> Inl RangeError
      | Some t \<Rightarrow>
          Inr (yearString (YearFromTime t) @ js ''-'' @ digits 2 (nat (MonthFromTime t + 1))
               @ js ''-'' @ digits 2 (nat (DateFromTime t))
               @ js ''T'' @ digits 2 (nat (HourFromTime t))
               @ js '':'' @ digits 2 (nat (MinFromTime t))
               @ js '':'' @ digits 2 (nat (SecFromTime t))
               @ js ''.'' @ digits 3 (nat (msFromTime t)) @ js ''Z''))"

section \<open>Values of the runtime\<close>

text \<open>
  A request body is parsed JSON: its property values are \<open>undefined\<close> (an absent
  property), \<open>null\<close>, booleans, numbers, strings, and references to nested objects
  or arrays, whose contents no function of the program reads. A number is a finite
  value, \<open>NaN\<close> or an infinity; the finite doubles are rationals, and the program
  only asks a number whether it is an integer, whether it is at most zero, and
  whether it is truthy.
\<close>

datatype jsnumber = Finite rat | NaN | PosInfinity | NegInfinity

datatype jsvalue =
  JUndefined
  | JNull
  | JBoolean bool
  | JNumber jsnumber
  | JString jsstring
  | JObject nat

datatype jstype = TUndefined | TObject | TBoolean | TNumber | TString

fun typeof :: "jsvalue \<Rightarrow> jstype" where
  "typeof JUndefined = TUndefined"
| "typeof JNull = TObject"
| "typeof (JBoolean b) = TBoolean"
| "typeof (JNumber n) = TNumber"
| "typeof (JString s) = TString"
| "typeof (JObject r) = TObject"

text \<open>\<open>ToBoolean\<close>: what \<open>!v\<close> and \<open>if (v)\<close> test.\<close>

fun ToBoolean :: "jsvalue \<Rightarrow> bool" where
  "ToBoolean JUndefined = False"
| "ToBoolean JNull = False"
| "ToBoolean (JBoolean b) = b"
| "ToBoolean (JNumber (Finite q)) = (q \<noteq> 0)"
| "ToBoolean (JNumber NaN) = False"
| "ToBoolean (JNumber PosInfinity) = True"
| "ToBoolean (JNumber NegInfinity) = True"
| "ToBoolean (JString s) = (s \<noteq> [])"
| "ToBoolean (JObject r) = True"

fun Number_isInteger :: "jsvalue \<Rightarrow> bool" where
  "Number_isInteger (JNumber (Finite q)) = (of_int \<lfloor>q\<rfloor> = q)"
| "Number_isInteger v = False"

text \<open>\<open>v <= 0\<close>; the source evaluates it on numbers only.\<close>

fun lessEqZero :: "jsvalue \<Rightarrow> bool" where
  "lessEqZero (JNumber (Finite q)) = (q \<le> 0)"
| "lessEqZero (JNumber NegInfinity) = True"
| "lessEqZero v = False"

text \<open>
  The conversions \<open>String(v)\<close> and \<open>Number(v)\<close> are those of ECMAScript on
  \<open>undefined\<close>, \<open>null\<close>, booleans and strings. The parts of the runtime that depend
  on the floating-point representation, on the Unicode tables or on the contents of
  nested objects are parameters: the decimal rendering of a number, the numeric
  reading of a string, the string a nested object or array converts to, and
  \<open>toLowerCase\<close>. Everything proved below holds for every such runtime.
\<close>

record runtime =
  toLowerCase :: "jsstring \<Rightarrow> jsstring"
  NumberToString :: "jsnumber \<Rightarrow> jsstring"
  StringToNumber :: "jsstring \<Rightarrow> jsnumber"
  ObjectToString :: "nat \<Rightarrow> jsstring"

fun ToString :: "runtime \<Rightarrow> jsvalue \<Rightarrow> jsstring" where
  "ToString rt JUndefined = js ''undefined''"
| "ToString rt JNull = js ''null''"
| "ToString rt (JBoolean b) = (if b then js ''true'' else js ''false'')"
| "ToString rt (JNumber n) = NumberToString rt n"
| "ToString rt (JString s) = s"
| "ToString rt (JObject r) = ObjectToString rt r"

fun ToNumber :: "runtime \<Rightarrow> jsvalue \<Rightarrow> jsnumber" where
  "ToNumber rt JUndefined = NaN"
| "ToNumber rt JNull = Finite 0"
| "ToNumber rt (JBoolean b) = (if b then Finite 1 else Finite 0)"
| "ToNumber rt (JNumber n) = n"
| "ToNumber rt (JString s) = StringToNumber rt s"
| "ToNumber rt (JObject r) = StringToNumber rt (ObjectToString rt r)"

section \<open>The validation module\<close>

text \<open>
  The payload object with the five properties the program reads; an absent property
  is \<open>JUndefined\<close>. Objects live in a heap and are passed by reference: a heap is the
  list of the objects allocated so far, and a reference is an index into it.
\<close>

record payload =
  serviceId :: jsvalue
  startAt :: jsvalue
  clientName :: jsvalue
  clientEmail :: jsvalue
  clientPhone :: jsvalue

type_synonym heap = "payload list"
type_synonym ref = nat

text \<open>
  \<open>/^\d{4}-\d{2}-\d{2}T\d{2}:\d{2}(?:Z|[+-]\d{2}:\d{2})$/\<close>
\<close>

definition ISO_MINUTE_NO_SECONDS :: regex where
  "ISO_MINUTE_NO_SECONDS =
     seq [digit, digit, digit, digit, lit CHR ''-'', digit, digit, lit CHR ''-'', digit, digit,
          lit CHR ''T'', digit, digit, lit CHR '':'', digit, digit,
          Or (lit CHR ''Z'')
             (seq [Atom (\<lambda>c. c = ch CHR ''+'' \<or> c = ch CHR ''-''), digit, digit,
                   lit CHR '':'', digit, digit])]"

definition validateStartAtMinuteOnly :: "jsvalue \<Rightarrow> jsstring option" where
  "validateStartAtMinuteOnly s =
     (case s of
        JString str \<Rightarrow>
          if \<not> test ISO_MINUTE_NO_SECONDS str
          then Some (js ''startAt must be ISO 8601 without seconds/milliseconds (e.g., 2025-09-20T18:00Z)'')
          else if getTime (Date_of_string str) = None
          then Some (js ''startAt is not a valid datetime'')
          else None
      | _ \<Rightarrow> Some (js ''startAt must be a string''))"

definition normalizeToIsoMinuteZ :: "jsstring \<Rightarrow> error + jsstring" where
  "normalizeToIsoMinuteZ s =
     (let d = Date_of_string s;
          ms = getTime d;
          minuteFloor = map_option (\<lambda>ms. (ms div 60000) * 60000) ms
      in map_sum id (replace (js ''.000Z'') (js ''Z'')) (toISOString (Date_of_number minuteFloor)))"

definition enforceFifteenMinuteGrid :: "jsstring \<Rightarrow> jsstring option" where
  "enforceFifteenMinuteGrid isoMinuteZ =
     (let d = Date_of_string isoMinuteZ;
          m = getUTCMinutes d
      in if (case m of None \<Rightarrow> False | Some m \<Rightarrow> m mod 15 = 0) then None
         else Some (js ''startAt must align to 15-minute increments''))"

text \<open>\<open>/^[^\s@]+@[^\s@]+\.[^\s@]+$/\<close>, the pattern of the e-mail check.\<close>

definition notSpaceAt :: "jschar \<Rightarrow> bool" where
  "notSpaceAt c = (\<not> isWhiteSpace c \<and> c \<noteq> ch CHR ''@'')"

definition EMAIL_SHAPE :: regex where
  "EMAIL_SHAPE =
     seq [Many1 notSpaceAt, lit CHR ''@'', Many1 notSpaceAt, lit CHR ''.'', Many1 notSpaceAt]"

text \<open>The length and the trimmed length of a value that is a string.\<close>

fun strOf :: "jsvalue \<Rightarrow> jsstring" where
  "strOf (JString s) = s"
| "strOf v = []"

definition push :: "jsstring list \<Rightarrow> jsstring \<Rightarrow> jsstring list" where
  "push errors m = errors @ [m]"

definition validateAppointment :: "payload \<Rightarrow> jsstring list" where
  "validateAppointment data =
     (let errors = [];
          errors =
            (if typeof (serviceId data) \<noteq> TNumber \<or> \<not> Number_isInteger (serviceId data)
                \<or> lessEqZero (serviceId data)
             then push errors (js ''serviceId must be a positive integer'') else errors);
          startErr = validateStartAtMinuteOnly (startAt data);
          errors =
            (case startErr of None \<Rightarrow> errors
             | Some e \<Rightarrow> if e \<noteq> [] then push errors e else errors);
          errors =
            (if typeof (clientName data) \<noteq> TString \<or> length (trim (strOf (clientName data))) = 0
             then push errors (js ''clientName is required'') else errors);
          errors =
            (if \<not> ToBoolean (clientEmail data) \<and> \<not> ToBoolean (clientPhone data)
             then push errors (js ''Either clientEmail or clientPhone must be provided'')
             else errors);
          errors =
            (if typeof (clientEmail data) = TString \<and> length (strOf (clientEmail data)) > 0
             then
               (let errors =
                      (if \<not> test EMAIL_SHAPE (strOf (clientEmail data))
                       then push errors (js ''clientEmail must be a valid email address'')
                       else errors)
                in if length (strOf (clientEmail data)) > 255
                   then push errors (js ''clientEmail is too long'') else errors)
             else errors);
          errors =
            (if typeof (clientPhone data) = TString \<and> length (strOf (clientPhone data)) > 0
             then
               (let errors =
                      (if length (strOf (clientPhone data)) < 7
                       then push errors (js ''clientPhone must be at least 7 digits long'')
                       else errors)
                in if length (strOf (clientPhone data)) > 40
                   then push errors (js ''clientPhone is too long'') else errors)
             else errors);
          errors =
            (if typeof (clientName data) = TString \<and> length (trim (strOf (clientName data))) > 120
             then push errors (js ''clientName is too long'') else errors)
      in errors)"

text \<open>
  \<open>normalizeAppointment\<close> allocates the copy \<open>d = {...data}\<close> and assigns to the
  properties of \<open>d\<close> one after the other. \<open>toISOString\<close> throws on an invalid date;
  the heap then keeps the assignments made before.
\<close>

definition normalizeAppointment :: "runtime \<Rightarrow> heap \<Rightarrow> ref \<Rightarrow> heap \<times> (error + ref)" where
  "normalizeAppointment rt h data =
     (let d = length h;
          h = h @ [h ! data];
          h = h[d := (h ! d)\<lparr>clientName :=
                 JString (slice0 120 (trim (ToString rt (clientName (h ! d)))))\<rparr>];
          h = (if ToBoolean (clientEmail (h ! d))
               then h[d := (h ! d)\<lparr>clientEmail :=
                      JString (slice0 255 (toLowerCase rt (trim (ToString rt (clientEmail (h ! d))))))\<rparr>]
               else h);
          h = (if ToBoolean (clientPhone (h ! d))
               then h[d := (h ! d)\<lparr>clientPhone :=
                      JString (slice0 40 (trim (ToString rt (clientPhone (h ! d)))))\<rparr>]
               else h);
          h = h[d := (h ! d)\<lparr>serviceId := JNumber (ToNumber rt (serviceId (h ! d)))\<rparr>]
      in case normalizeToIsoMinuteZ (ToString rt (startAt (h ! d))) of
           Inl e \<Rightarrow> (h, Inl e)
         | Inr s \<Rightarrow> (h[d := (h ! d)\<lparr>startAt := JString s\<rparr>], Inr d))"

definition computeEndAt :: "jsstring \<Rightarrow> int \<Rightarrow> error + jsstring" where
  "computeEndAt startIso durationMin =
     (let ms = map_option (\<lambda>t. t + durationMin * 60000) (getTime (Date_of_string startIso))
      in map_sum id (replace (js ''.000Z'') (js ''Z'')) (toISOString (Date_of_number ms)))"

section \<open>The route \<open>POST /appointments\<close>\<close>

text \<open>
  Modelled from the spec: the row of the \<open>INSERT\<close> of step 6, which the source keeps
  as a comment; the specification (3, AppointmentRecord) gives the record the
  normalized fields, the three identifiers, \<open>endAt\<close> and the fixed status
  \<open>pending\<close>. The columns are those of the commented statement, in its order.
\<close>

record AppointmentRecord =
  id' :: jsstring
  service_id :: jsvalue
  start_at :: jsstring
  end_at :: jsstring
  client_name :: jsvalue
  client_email :: jsvalue
  client_phone :: jsvalue
  status :: jsstring
  confirm_token :: jsstring
  cancel_token :: jsstring

text \<open>\<open>v ?? null\<close>\<close>

fun orNull :: "jsvalue \<Rightarrow> jsvalue" where
  "orNull JUndefined = JNull"
| "orNull v = v"

text \<open>
  The outcome of the handler: \<open>Rejected errors\<close> is the response 400 with
  \<open>{errors}\<close>; \<open>Accepted message row\<close> is the response 202 with the message and,
  as \<open>debug\<close>, the \<open>id\<close>, \<open>confirmToken\<close> and \<open>cancelToken\<close> of the row;
  \<open>Failed e\<close> is an exception handed to \<open>next\<close>, which the central handler
  answers with 500.
\<close>

datatype response = Rejected "jsstring list" | Accepted jsstring AppointmentRecord | Failed error

text \<open>Step 3b: \<open>Number.isNaN(startMs) || startMs <= now\<close> rejects.\<close>

definition startsInFuture :: "int \<Rightarrow> jsstring \<Rightarrow> bool" where
  "startsInFuture now s =
     (case Date_parse s of None \<Rightarrow> False | Some startMs \<Rightarrow> \<not> startMs \<le> now)"

text \<open>
  The handler, with what it reads from outside as parameters: whether
  \<open>enforceFifteenMinuteGrid\<close> is wired in (the test \<open>typeof ... === "function"\<close>),
  \<open>Date.now()\<close>, and the three results of \<open>crypto.randomUUID()\<close>.
\<close>

definition postAppointments ::
  "runtime \<Rightarrow> bool \<Rightarrow> int \<Rightarrow> jsstring \<times> jsstring \<times> jsstring \<Rightarrow> heap \<Rightarrow> ref \<Rightarrow> heap \<times> response"
where
  "postAppointments rt gridWired now uuids h body =
     (let errors = validateAppointment (h ! body) in
      if length errors > 0 then (h, Rejected errors)
      else
        case normalizeAppointment rt h body of
          (h, Inl e) \<Rightarrow> (h, Failed e)
        | (h, Inr d) \<Rightarrow>
            (let data = h ! d in
             case startAt data of
               JString start \<Rightarrow>
                 (let gridErr = (if gridWired then enforceFifteenMinuteGrid start else None) in
                  case gridErr of
                    Some e \<Rightarrow> (h, Rejected [e])
                  | None \<Rightarrow>
                      if \<not> startsInFuture now start
                      then (h, Rejected [js ''startAt must be in the future''])
                      else
                        (case computeEndAt start 60 of
                           Inl e \<Rightarrow> (h, Failed e)
                         | Inr endAt \<Rightarrow>
                             (case uuids of
                                (uuid, confirmToken, cancelToken) \<Rightarrow>
                                  (h, Accepted
                                        (js ''Appointment received. Please check your email to confirm.'')
                                        \<lparr>id' = uuid, service_id = serviceId data,
                                         start_at = start, end_at = endAt,
                                         client_name = clientName data,
                                         client_email = orNull (clientEmail data),
                                         client_phone = orNull (clientPhone data),
                                         status = js ''pending'',
                                         confirm_token = confirmToken,
                                         cancel_token = cancelToken\<rparr>))))
             | _ \<Rightarrow> (h, Failed TypeError)))"

section \<open>The rules of the specification\<close>

text \<open>
  The shape the specification gives \<open>startAt\<close> (4.1): four-digit year, two-digit
  month and day, \<open>T\<close>, two-digit hour and minute, then \<open>Z\<close> or an offset
  \<open>\<plusminus>HH:MM\<close>; written position by position. A string \<open>hasSecondsPart\<close> when the
  minute is followed by \<open>:\<close> (seconds) or \<open>.\<close> (a fraction).
\<close>

definition shaped :: "(jschar \<Rightarrow> bool) list \<Rightarrow> jsstring \<Rightarrow> bool" where
  "shaped ps s = list_all2 (\<lambda>p c. p c) ps s"

definition isChar :: "char \<Rightarrow> jschar \<Rightarrow> bool" where
  "isChar c x = (x = ch c)"

definition minutePrefix :: "(jschar \<Rightarrow> bool) list" where
  "minutePrefix =
     [isDigit, isDigit, isDigit, isDigit, isChar CHR ''-'', isDigit, isDigit, isChar CHR ''-'',
      isDigit, isDigit, isChar CHR ''T'', isDigit, isDigit, isChar CHR '':'', isDigit, isDigit]"

definition offsetShape :: "(jschar \<Rightarrow> bool) list" where
  "offsetShape =
     [\<lambda>c. c = ch CHR ''+'' \<or> c = ch CHR ''-'', isDigit, isDigit, isChar CHR '':'', isDigit, isDigit]"

definition minutePrecisionShape :: "jsstring \<Rightarrow> bool" where
  "minutePrecisionShape s =
     (shaped minutePrefix (take 16 s)
      \<and> (drop 16 s = js ''Z'' \<or> shaped offsetShape (drop 16 s)))"

definition hasSecondsPart :: "jsstring \<Rightarrow> bool" where
  "hasSecondsPart s =
     (shaped minutePrefix (take 16 s)
      \<and> (case drop 16 s of [] \<Rightarrow> False | c # r \<Rightarrow> c = ch CHR '':'' \<or> c = ch CHR ''.''))"

text \<open>
  The rules of the Field Validator (4.1), in the order of the specification, each with
  its message. A contact field is \<open>present\<close> for its format rules when it is a
  non-empty string.
\<close>

definition isPositiveInteger :: "jsvalue \<Rightarrow> bool" where
  "isPositiveInteger v =
     (case v of JNumber (Finite q) \<Rightarrow> of_int \<lfloor>q\<rfloor> = q \<and> 0 < q | _ \<Rightarrow> False)"

definition present :: "jsvalue \<Rightarrow> bool" where
  "present v = (case v of JString s \<Rightarrow> s \<noteq> [] | _ \<Rightarrow> False)"

definition fieldRules :: "((payload \<Rightarrow> bool) \<times> jsstring) list" where
  "fieldRules =
     [(\<lambda>d. \<not> isPositiveInteger (serviceId d), js ''serviceId must be a positive integer''),
      (\<lambda>d. typeof (startAt d) \<noteq> TString, js ''startAt must be a string''),
      (\<lambda>d. typeof (startAt d) = TString \<and> \<not> minutePrecisionShape (strOf (startAt d)),
       js ''startAt must be ISO 8601 without seconds/milliseconds (e.g., 2025-09-20T18:00Z)''),
      (\<lambda>d. typeof (startAt d) = TString \<and> minutePrecisionShape (strOf (startAt d))
            \<and> Date_parse (strOf (startAt d)) = None,
       js ''startAt is not a valid datetime''),
      (\<lambda>d. \<not> (typeof (clientName d) = TString \<and> trim (strOf (clientName d)) \<noteq> []),
       js ''clientName is required''),
      (\<lambda>d. \<not> (ToBoolean (clientEmail d) \<or> ToBoolean (clientPhone d)),
       js ''Either clientEmail or clientPhone must be provided''),
      (\<lambda>d. present (clientEmail d) \<and> \<not> test EMAIL_SHAPE (strOf (clientEmail d)),
       js ''clientEmail must be a valid email address''),
      (\<lambda>d. present (clientEmail d) \<and> 255 < length (strOf (clientEmail d)),
       js ''clientEmail is too long''),
      (\<lambda>d. present (clientPhone d) \<and> length (strOf (clientPhone d)) < 7,
       js ''clientPhone must be at least 7 digits long''),
      (\<lambda>d. present (clientPhone d) \<and> 40 < length (strOf (clientPhone d)),
       js ''clientPhone is too long''),
      (\<lambda>d. typeof (clientName d) = TString \<and> 120 < length (trim (strOf (clientName d))),
       js ''clientName is too long'')]"

text \<open>
  The minute canonicalization of the specification (4.2), on an instant: floor the epoch
  milliseconds to the minute, and render the result as UTC in the form
  \<open>YYYY-MM-DDTHH:MM:00Z\<close>; an instant that is \<open>NaN\<close> or outside the range of
  \<open>Date\<close> has no rendering (the runtime throws). \<open>minutePart\<close> is the string up to
  the minute, with the year as \<open>toISOString\<close> writes it.
\<close>

definition minutePart :: "int \<Rightarrow> jsstring" where
  "minutePart t =
     yearString (YearFromTime t) @ js ''-'' @ digits 2 (nat (MonthFromTime t + 1))
     @ js ''-'' @ digits 2 (nat (DateFromTime t))
     @ js ''T'' @ digits 2 (nat (HourFromTime t))
     @ js '':'' @ digits 2 (nat (MinFromTime t))"

definition minuteString :: "int \<Rightarrow> jsstring" where
  "minuteString t = minutePart t @ js '':00Z''"

definition minuteCanonical :: "int option \<Rightarrow> error + jsstring" where
  "minuteCanonical ms =
     (case ms of None \<Rightarrow> Inl RangeError
      | Some t \<Rightarrow>
          if \<bar>(t div 60000) * 60000\<bar> \<le> 8640000000000000
          then Inr (minuteString ((t div 60000) * 60000)) else Inl RangeError)"

text \<open>
  The UTC minute of a canonical string \<open>...THH:MM:00Z\<close>, read from the string: the two
  digits before \<open>:00Z\<close>.
\<close>

definition utcMinuteOf :: "jsstring \<Rightarrow> nat" where
  "utcMinuteOf s = number (take 2 (drop (length s - 6) s))"

text \<open>
  The canonical form \<open>YYYY-MM-DDTHH:MM:00Z\<close>, position by position.
\<close>

definition canonicalShape :: "(jschar \<Rightarrow> bool) list" where
  "canonicalShape =
     minutePrefix @ [isChar CHR '':'', isChar CHR ''0'', isChar CHR ''0'', isChar CHR ''Z'']"

section \<open>Basic facts about strings\<close>

lemma unat_ch: "unat (ch c) = of_char c"
proof -
  have "(of_char c :: nat) < 256"
    using of_char_mod_256 [of c, where ?'a = nat] by (metis mod_less_divisor zero_less_numeral)
  then have "(of_char c :: nat) < 65536" by linarith
  then show ?thesis unfolding ch_def by (simp add: unat_of_nat)
qed

lemma ch_eq_iff [simp]: "ch c = ch d \<longleftrightarrow> c = d"
proof
  assume "ch c = ch d"
  then have "unat (ch c) = unat (ch d)" by simp
  then show "c = d" by (simp add: unat_ch)
qed simp

lemma js_eq_iff [simp]: "js a = js b \<longleftrightarrow> a = b"
  unfolding js_def by (simp add: inj_on_def)

lemma js_Nil [simp]: "js a = [] \<longleftrightarrow> a = []" "[] = js a \<longleftrightarrow> a = []"
  unfolding js_def by auto

section \<open>The regular expression of \<open>startAt\<close>\<close>

lemma matchk_atoms:
  "matchk (seq (map Atom ps @ rs)) s k
   \<longleftrightarrow> length ps \<le> length s \<and> shaped ps (take (length ps) s)
       \<and> matchk (seq rs) (drop (length ps) s) k"
proof (induction ps arbitrary: s)
  case Nil
  then show ?case by (simp add: shaped_def)
next
  case (Cons p ps)
  show ?case
  proof (cases s)
    case Nil
    then show ?thesis by simp
  next
    case (Cons c cs)
    then show ?thesis using Cons.IH [of cs] by (auto simp: shaped_def)
  qed
qed

lemma shaped_length: "shaped ps s \<Longrightarrow> length s = length ps"
  by (simp add: shaped_def list_all2_lengthD)

lemma length_minutePrefix: "length minutePrefix = 16"
  by (simp add: minutePrefix_def)

lemma length_offsetShape: "length offsetShape = 6"
  by (simp add: offsetShape_def)

lemma matchk_atoms_end:
  "matchk (seq (map Atom ps)) r (\<lambda>r. r = []) \<longleftrightarrow> shaped ps r"
proof -
  have "matchk (seq (map Atom ps)) r (\<lambda>r. r = []) \<longleftrightarrow>
        length ps \<le> length r \<and> shaped ps (take (length ps) r) \<and> drop (length ps) r = []"
    using matchk_atoms [of ps "[]" r "\<lambda>r. r = []"] by simp
  also have "\<dots> \<longleftrightarrow> shaped ps r"
  proof
    assume a: "length ps \<le> length r \<and> shaped ps (take (length ps) r) \<and> drop (length ps) r = []"
    then have "take (length ps) r = r" by simp
    with a show "shaped ps r" by simp
  next
    assume a: "shaped ps r"
    then have "length r = length ps" by (rule shaped_length)
    with a show "length ps \<le> length r \<and> shaped ps (take (length ps) r) \<and> drop (length ps) r = []"
      by simp
  qed
  finally show ?thesis .
qed

lemma ISO_as_atoms:
  "ISO_MINUTE_NO_SECONDS =
     seq (map Atom minutePrefix @ [Or (lit CHR ''Z'') (seq (map Atom offsetShape))])"
  by (simp add: ISO_MINUTE_NO_SECONDS_def minutePrefix_def offsetShape_def digit_def lit_def
      isChar_def [abs_def])

lemma matchk_Z: "matchk (lit CHR ''Z'') r (\<lambda>r. r = []) \<longleftrightarrow> r = js ''Z''"
  by (cases r) (auto simp: lit_def js_def)

lemma test_ISO_iff: "test ISO_MINUTE_NO_SECONDS s \<longleftrightarrow> minutePrecisionShape s"
proof -
  have len: "16 \<le> length s" if "shaped minutePrefix (take 16 s)"
    using shaped_length [OF that] by (simp add: length_minutePrefix)
  have "test ISO_MINUTE_NO_SECONDS s \<longleftrightarrow>
        16 \<le> length s \<and> shaped minutePrefix (take 16 s)
        \<and> (drop 16 s = js ''Z'' \<or> shaped offsetShape (drop 16 s))"
    unfolding test_def ISO_as_atoms matchk_atoms [of minutePrefix] length_minutePrefix
    by (simp add: matchk_Z matchk_atoms_end)
  then show ?thesis unfolding minutePrecisionShape_def using len by blast
qed

lemma hasSecondsPart_no_shape: "hasSecondsPart s \<Longrightarrow> \<not> minutePrecisionShape s"
  unfolding hasSecondsPart_def minutePrecisionShape_def
  by (cases "drop 16 s") (auto simp: js_def offsetShape_def shaped_def isChar_def)

section \<open>The validator as a concatenation of its checks\<close>

lemma push_if: "(if c then push xs m else xs) = xs @ (if c then [m] else [])"
  by (simp add: push_def)

lemma push_case:
  "(case so of None \<Rightarrow> xs | Some e \<Rightarrow> if e \<noteq> [] then push xs e else xs)
   = xs @ (case so of None \<Rightarrow> [] | Some e \<Rightarrow> if e \<noteq> [] then [e] else [])"
  by (simp add: push_def split: option.splits)

lemma push_case2:
  "(case so of None \<Rightarrow> xs | Some e \<Rightarrow> xs @ f e)
   = xs @ (case so of None \<Rightarrow> [] | Some e \<Rightarrow> f e)"
  by (simp split: option.splits)

lemma push_block:
  "(if A then (xs @ (if B then [m] else [])) @ (if C then [n] else []) else xs)
   = xs @ (if A \<and> B then [m] else []) @ (if A \<and> C then [n] else [])"
  by simp

lemma validateStartAtMinuteOnly_nonempty: "validateStartAtMinuteOnly v = Some e \<Longrightarrow> e \<noteq> []"
  by (auto simp: validateStartAtMinuteOnly_def split: jsvalue.splits if_splits)

lemma startErr_case:
  "(case validateStartAtMinuteOnly v of None \<Rightarrow> [] | Some e \<Rightarrow> if e \<noteq> [] then [e] else [])
   = (case validateStartAtMinuteOnly v of None \<Rightarrow> [] | Some e \<Rightarrow> [e])"
  using validateStartAtMinuteOnly_nonempty [of v] by (cases "validateStartAtMinuteOnly v") auto

lemma validateAppointment_blocks:
  "validateAppointment data =
     (if typeof (serviceId data) \<noteq> TNumber \<or> \<not> Number_isInteger (serviceId data)
         \<or> lessEqZero (serviceId data)
      then [js ''serviceId must be a positive integer''] else [])
     @ (case validateStartAtMinuteOnly (startAt data) of None \<Rightarrow> [] | Some e \<Rightarrow> [e])
     @ (if typeof (clientName data) \<noteq> TString \<or> length (trim (strOf (clientName data))) = 0
        then [js ''clientName is required''] else [])
     @ (if \<not> ToBoolean (clientEmail data) \<and> \<not> ToBoolean (clientPhone data)
        then [js ''Either clientEmail or clientPhone must be provided''] else [])
     @ (if (typeof (clientEmail data) = TString \<and> length (strOf (clientEmail data)) > 0)
           \<and> \<not> test EMAIL_SHAPE (strOf (clientEmail data))
        then [js ''clientEmail must be a valid email address''] else [])
     @ (if (typeof (clientEmail data) = TString \<and> length (strOf (clientEmail data)) > 0)
           \<and> length (strOf (clientEmail data)) > 255
        then [js ''clientEmail is too long''] else [])
     @ (if (typeof (clientPhone data) = TString \<and> length (strOf (clientPhone data)) > 0)
           \<and> length (strOf (clientPhone data)) < 7
        then [js ''clientPhone must be at least 7 digits long''] else [])
     @ (if (typeof (clientPhone data) = TString \<and> length (strOf (clientPhone data)) > 0)
           \<and> length (strOf (clientPhone data)) > 40
        then [js ''clientPhone is too long''] else [])
     @ (if typeof (clientName data) = TString \<and> length (trim (strOf (clientName data))) > 120
        then [js ''clientName is too long''] else [])"
  unfolding validateAppointment_def
  apply (simp only: push_if push_case)
  apply (simp only: Let_def push_block push_case2)
  apply (simp only: startErr_case append_Nil append_assoc)
  done

lemma isPositiveInteger_iff:
  "\<not> isPositiveInteger v \<longleftrightarrow> typeof v \<noteq> TNumber \<or> \<not> Number_isInteger v \<or> lessEqZero v"
proof (cases v)
  case (JNumber n)
  then show ?thesis by (cases n) (auto simp: isPositiveInteger_def)
qed (simp_all add: isPositiveInteger_def)

lemma present_iff: "present v \<longleftrightarrow> typeof v = TString \<and> 0 < length (strOf v)"
  by (cases v) (simp_all add: present_def)

lemma startAt_block:
  "(case validateStartAtMinuteOnly v of None \<Rightarrow> [] | Some e \<Rightarrow> [e])
   = (if typeof v \<noteq> TString then [js ''startAt must be a string''] else [])
     @ (if typeof v = TString \<and> \<not> minutePrecisionShape (strOf v)
        then [js ''startAt must be ISO 8601 without seconds/milliseconds (e.g., 2025-09-20T18:00Z)'']
        else [])
     @ (if typeof v = TString \<and> minutePrecisionShape (strOf v) \<and> Date_parse (strOf v) = None
        then [js ''startAt is not a valid datetime''] else [])"
  by (cases v)
     (simp_all add: validateStartAtMinuteOnly_def test_ISO_iff getTime_def Date_of_string_def)

lemma filter_if: "map snd (filter (\<lambda>r. fst r d) ((c, m) # rs))
   = (if c d then [m] else []) @ map snd (filter (\<lambda>r. fst r d) rs)"
  by simp

lemma startAt_block_set:
  "set (case validateStartAtMinuteOnly v of None \<Rightarrow> [] | Some e \<Rightarrow> [e])
   \<subseteq> {js ''startAt must be a string'',
       js ''startAt must be ISO 8601 without seconds/milliseconds (e.g., 2025-09-20T18:00Z)'',
       js ''startAt is not a valid datetime''}"
  unfolding startAt_block by auto

section \<open>Facts about time values\<close>

lemma mult_div_le_int: "0 < n \<Longrightarrow> n * (d div n) \<le> d" for n d :: int
proof -
  assume n: "0 < n"
  have "n * (d div n) + d mod n = d" by simp
  moreover have "0 \<le> d mod n" using n by simp
  ultimately show ?thesis by linarith
qed

lemma lt_mult_div_int: "0 < n \<Longrightarrow> d < n * (d div n + 1)" for n d :: int
proof -
  assume n: "0 < n"
  have e: "n * (d div n) + d mod n = d" by simp
  have m: "d mod n < n" using n by simp
  from e m have "d < n * (d div n) + n" by linarith
  then show ?thesis by (simp add: algebra_simps)
qed

lemma DayFromYear_1970: "DayFromYear 1970 = 0"
  by (simp add: DayFromYear_def)

lemma DayFromYear_after: "0 \<le> k \<Longrightarrow> 365 * k \<le> DayFromYear (1970 + k) \<and> DayFromYear (1970 + k) \<le> 366 * k"
proof (induction k rule: int_ge_induct)
  case base
  then show ?case by (simp add: DayFromYear_1970)
next
  case (step i)
  have "DayFromYear (1970 + (i + 1)) = DayFromYear (1970 + i) + DaysInYear (1970 + i)"
    using DayFromYear_step [of "1970 + i"] by (simp add: algebra_simps)
  then show ?case using step.IH DaysInYear_bounds [of "1970 + i"] by auto
qed

lemma DayFromYear_before: "k \<le> 0 \<Longrightarrow> 366 * k \<le> DayFromYear (1970 + k) \<and> DayFromYear (1970 + k) \<le> 365 * k"
proof (induction k rule: int_le_induct)
  case base
  then show ?case by (simp add: DayFromYear_1970)
next
  case (step i)
  have "DayFromYear (1970 + i) = DayFromYear (1970 + (i - 1)) + DaysInYear (1970 + (i - 1))"
    using DayFromYear_step [of "1970 + (i - 1)"] by (simp add: algebra_simps)
  then show ?case using step.IH DaysInYear_bounds [of "1970 + (i - 1)"] by auto
qed

lemma yearSearch_correct:
  "DayFromYear y \<le> d \<Longrightarrow>
     DayFromYear (yearSearch d y) \<le> d \<and> d < DayFromYear (yearSearch d y + 1)"
proof (induction d y rule: yearSearch.induct)
  case (1 d y)
  show ?case
  proof (cases "DayFromYear (y + 1) \<le> d")
    case True
    then show ?thesis using "1.IH" by (subst (1 2) yearSearch.simps) simp
  next
    case False
    then show ?thesis using "1.prems" by (subst (1 2) yearSearch.simps) simp
  qed
qed

lemma year_estimate: "DayFromYear (1970 + (if 0 \<le> d then d div 366 else d div 365)) \<le> d"
proof (cases "0 \<le> d")
  case True
  then have "0 \<le> d div 366" by simp
  then have "DayFromYear (1970 + d div 366) \<le> 366 * (d div 366)"
    using DayFromYear_after by blast
  also have "\<dots> \<le> d" by (rule mult_div_le_int) simp
  finally show ?thesis using True by simp
next
  case False
  then have "d div 365 < 0" by (simp add: pos_imp_zdiv_neg_iff)
  then have "d div 365 \<le> 0" by simp
  then have "DayFromYear (1970 + d div 365) \<le> 365 * (d div 365)"
    using DayFromYear_before by blast
  also have "\<dots> \<le> d" by (rule mult_div_le_int) simp
  finally show ?thesis using False by simp
qed

lemma YearFromDay_correct:
  "DayFromYear (YearFromDay d) \<le> d \<and> d < DayFromYear (YearFromDay d + 1)"
  unfolding YearFromDay_def by (rule yearSearch_correct [OF year_estimate])

lemma YearFromTime_correct:
  "TimeFromYear (YearFromTime t) \<le> t \<and> t < TimeFromYear (YearFromTime t + 1)"
proof -
  have a: "DayFromYear (YearFromTime t) \<le> t div msPerDay"
    and b: "t div msPerDay < DayFromYear (YearFromTime t + 1)"
    using YearFromDay_correct [of "Day t"] by (simp_all add: YearFromTime_def Day_def)
  have p: "0 < msPerDay" by (simp add: msPerDay_def)
  have "msPerDay * DayFromYear (YearFromTime t) \<le> msPerDay * (t div msPerDay)"
    using a p by simp
  also have "\<dots> \<le> t" using p by (rule mult_div_le_int)
  finally have 1: "TimeFromYear (YearFromTime t) \<le> t" by (simp add: TimeFromYear_def)
  have "t div msPerDay + 1 \<le> DayFromYear (YearFromTime t + 1)" using b by simp
  then have "msPerDay * (t div msPerDay + 1) \<le> msPerDay * DayFromYear (YearFromTime t + 1)"
    using p by simp
  moreover have "t < msPerDay * (t div msPerDay + 1)"
    using p by (rule lt_mult_div_int)
  ultimately show ?thesis using 1 by (simp add: TimeFromYear_def)
qed

lemma DayFromYear_mono: "y \<le> z \<Longrightarrow> DayFromYear y \<le> DayFromYear z"
proof (induction z rule: int_ge_induct)
  case base
  then show ?case by simp
next
  case (step i)
  then show ?case using DayFromYear_step [of i] DaysInYear_bounds [of i] by linarith
qed

lemma YearFromDay_bounds:
  assumes "\<bar>d\<bar> \<le> 100000000"
  shows "- 999999 \<le> YearFromDay d \<and> YearFromDay d \<le> 999999"
proof -
  let ?y = "YearFromDay d"
  have c: "DayFromYear ?y \<le> d" "d < DayFromYear (?y + 1)"
    using YearFromDay_correct [of d] by simp_all
  have up: "?y \<le> 999999"
  proof (rule ccontr)
    assume "\<not> ?y \<le> 999999"
    then have "DayFromYear 999999 \<le> DayFromYear ?y" by (intro DayFromYear_mono) simp
    moreover have "DayFromYear 999999 > 100000000" by (simp add: DayFromYear_def)
    ultimately show False using c assms by linarith
  qed
  have lo: "- 999999 \<le> ?y"
  proof (rule ccontr)
    assume "\<not> - 999999 \<le> ?y"
    then have "DayFromYear (?y + 1) \<le> DayFromYear (- 999999)" by (intro DayFromYear_mono) simp
    moreover have "DayFromYear (- 999999) < - 100000000" by (simp add: DayFromYear_def)
    ultimately show False using c assms by linarith
  qed
  show ?thesis using up lo by simp
qed

lemma DayWithinYear_bounds:
  "0 \<le> DayWithinYear t \<and> DayWithinYear t < DaysInYear (YearFromTime t)"
  using YearFromDay_correct [of "Day t"] DayFromYear_step [of "YearFromTime t"]
  by (simp add: DayWithinYear_def YearFromTime_def)

lemma InLeapYear_cases: "InLeapYear t = 0 \<and> DaysInYear (YearFromTime t) = 365
   \<or> InLeapYear t = 1 \<and> DaysInYear (YearFromTime t) = 366"
  using DaysInYear_bounds [of "YearFromTime t"]
  by (auto simp: InLeapYear_def DaysInYear_def)

lemma MonthFromTime_bounds: "0 \<le> MonthFromTime t \<and> MonthFromTime t \<le> 11"
  by (simp add: MonthFromTime_def Let_def)

lemma DateFromTime_eq:
  "DateFromTime t = DayWithinYear t - daysBeforeMonth (InLeapYear t) (MonthFromTime t) + 1"
  by (simp add: DateFromTime_def daysBeforeMonth_def Let_def)

lemma month_table:
  fixes d l :: int
  assumes "0 \<le> d" "d < 365 + l" "l = 0 \<or> l = 1"
  shows "1 \<le> d - daysBeforeMonth l
           (if d < 31 then 0 else if d < 59 + l then 1 else if d < 90 + l then 2
            else if d < 120 + l then 3 else if d < 151 + l then 4 else if d < 181 + l then 5
            else if d < 212 + l then 6 else if d < 243 + l then 7 else if d < 273 + l then 8
            else if d < 304 + l then 9 else if d < 334 + l then 10 else 11) + 1
       \<and> d - daysBeforeMonth l
           (if d < 31 then 0 else if d < 59 + l then 1 else if d < 90 + l then 2
            else if d < 120 + l then 3 else if d < 151 + l then 4 else if d < 181 + l then 5
            else if d < 212 + l then 6 else if d < 243 + l then 7 else if d < 273 + l then 8
            else if d < 304 + l then 9 else if d < 334 + l then 10 else 11) + 1 \<le> 31"
  using assms by (simp add: daysBeforeMonth_def) linarith

lemma DateFromTime_bounds: "1 \<le> DateFromTime t \<and> DateFromTime t \<le> 31"
proof -
  have l: "InLeapYear t = 0 \<or> InLeapYear t = 1" using InLeapYear_cases [of t] by blast
  have d: "0 \<le> DayWithinYear t" "DayWithinYear t < 365 + InLeapYear t"
    using DayWithinYear_bounds [of t] InLeapYear_cases [of t] by auto
  show ?thesis
    unfolding DateFromTime_eq using month_table [OF d l]
    by (simp add: MonthFromTime_def Let_def)
qed

lemma MakeDay_fields: "MakeDay (YearFromTime t) (MonthFromTime t) (DateFromTime t) = Day t"
proof -
  have m: "MonthFromTime t div 12 = 0" "MonthFromTime t mod 12 = MonthFromTime t"
    using MonthFromTime_bounds [of t] by simp_all
  show ?thesis
    unfolding MakeDay_def Let_def m DateFromTime_eq
    by (simp add: InLeapYear_def DayWithinYear_def)
qed

lemma mod_range: "0 < n \<Longrightarrow> 0 \<le> a mod n \<and> a mod n \<le> n - 1" for a n :: int
  using pos_mod_sign [of n a] pos_mod_bound [of n a] by linarith

lemma time_fields_bounds:
  "0 \<le> HourFromTime t \<and> HourFromTime t \<le> 23 \<and> 0 \<le> MinFromTime t \<and> MinFromTime t \<le> 59
   \<and> 0 \<le> SecFromTime t \<and> SecFromTime t \<le> 59 \<and> 0 \<le> msFromTime t \<and> msFromTime t \<le> 999"
proof -
  have h: "0 \<le> (t div 3600000) mod 24 \<and> (t div 3600000) mod 24 \<le> 23"
    using mod_range [of 24 "t div 3600000"] by simp
  have m: "0 \<le> (t div 60000) mod 60 \<and> (t div 60000) mod 60 \<le> 59"
    using mod_range [of 60 "t div 60000"] by simp
  have s: "0 \<le> (t div 1000) mod 60 \<and> (t div 1000) mod 60 \<le> 59"
    using mod_range [of 60 "t div 1000"] by simp
  have ms: "0 \<le> t mod 1000 \<and> t mod 1000 \<le> 999"
    using mod_range [of 1000 t] by simp
  show ?thesis
    unfolding HourFromTime_def MinFromTime_def SecFromTime_def msFromTime_def
      msPerHour_def msPerMinute_def msPerSecond_def
    using h m s ms by blast
qed

lemma MakeTime_fields:
  "MakeDate (Day t) (MakeTime (HourFromTime t) (MinFromTime t) (SecFromTime t) (msFromTime t)) = t"
proof -
  have e1: "t div 60000 = t div 1000 div 60" using zdiv_zmult2_eq [of 60 t 1000] by simp
  have e2: "t div 3600000 = t div 60000 div 60" using zdiv_zmult2_eq [of 60 t 60000] by simp
  have e3: "t div 86400000 = t div 3600000 div 24" using zdiv_zmult2_eq [of 24 t 3600000] by simp
  define a where "a = t div 1000"
  define b where "b = a div 60"
  define c where "c = b div 60"
  define d where "d = c div 24"
  have s: "t = 1000 * a + t mod 1000" by (simp add: a_def)
  have m: "a = 60 * b + a mod 60" by (simp add: b_def)
  have h: "b = 60 * c + b mod 60" by (simp add: c_def)
  have dd: "c = 24 * d + c mod 24" by (simp add: d_def)
  have "d * 86400000 + (c mod 24 * 3600000 + b mod 60 * 60000 + a mod 60 * 1000 + t mod 1000) = t"
    using s m h dd by linarith
  then have "t div 86400000 * 86400000 + ((t div 3600000) mod 24 * 3600000
        + (t div 60000) mod 60 * 60000 + (t div 1000) mod 60 * 1000 + t mod 1000) = t"
    unfolding e3 e2 e1 d_def c_def b_def a_def .
  then show ?thesis
    unfolding MakeDate_def MakeTime_def Day_def HourFromTime_def MinFromTime_def SecFromTime_def
      msFromTime_def msPerDay_def msPerHour_def msPerMinute_def msPerSecond_def .
qed

lemma minute_aligned_fields:
  "t mod 60000 = 0 \<Longrightarrow> SecFromTime t = 0 \<and> msFromTime t = 0"
proof -
  assume a: "t mod 60000 = 0"
  define k where "k = t div 60000"
  have k: "t = 60000 * k" using a by (simp add: mod_eq_0_iff_dvd k_def)
  have "t = 1000 * (60 * k)" using k by simp
  then have 1: "t mod 1000 = 0" by simp
  have "t div 1000 = 60 * k" unfolding k by simp
  then show ?thesis using 1 by (simp add: SecFromTime_def msFromTime_def msPerSecond_def)
qed

section \<open>Facts about writing and parsing dates\<close>

lemma unat_digitChar: "n < 10 \<Longrightarrow> unat (digitChar n) = 48 + n"
proof -
  assume n: "n < 10"
  have "unat (of_nat (48 + n) :: 16 word) = (48 + n) mod 2 ^ LENGTH(16)"
    by (rule unat_of_nat)
  also have "\<dots> = 48 + n" using n by simp
  finally show ?thesis unfolding digitChar_def .
qed

lemma isDigit_digitChar: "n < 10 \<Longrightarrow> isDigit (digitChar n)"
  using unat_digitChar [of n] by (simp add: isDigit_def word_le_nat_alt)

lemma digitVal_digitChar: "n < 10 \<Longrightarrow> digitVal (digitChar n) = n"
  by (simp add: digitVal_def unat_digitChar)

lemma length_digits [simp]: "length (digits k n) = k"
  by (induction k arbitrary: n) simp_all

lemma digits_all_digit: "list_all isDigit (digits k n)"
  by (induction k arbitrary: n) (simp_all add: isDigit_digitChar)

lemma number_snoc: "number (s @ [c]) = 10 * number s + digitVal c"
  by (simp add: number_def)

lemma number_digits: "n < 10 ^ k \<Longrightarrow> number (digits k n) = n"
proof (induction k arbitrary: n)
  case 0
  then show ?case by (simp add: number_def)
next
  case (Suc k)
  have "n div 10 < 10 ^ k" using Suc.prems by (simp add: less_mult_imp_div_less mult.commute)
  then have "number (digits k (n div 10)) = n div 10" by (rule Suc.IH)
  then show ?case by (simp add: number_snoc digitVal_digitChar)
qed

lemma fixedNumber_digits:
  "n < 10 ^ k \<Longrightarrow> fixedNumber k (digits k n @ r) = Some (int n, r)"
  by (simp add: fixedNumber_def digits_all_digit number_digits)

lemma symbol_ch: "symbol c (js [c] @ r) = Some r"
  by (simp add: symbol_def js_def)

lemma isDigit_not_ch:
  "isDigit x \<Longrightarrow> x \<noteq> ch CHR ''+'' \<and> x \<noteq> ch CHR ''-'' \<and> x \<noteq> ch CHR ''.'' \<and> x \<noteq> ch CHR '':''
     \<and> x \<noteq> ch CHR ''Z'' \<and> x \<noteq> ch CHR ''T''"
  by (auto simp: isDigit_def ch_def)

lemma digits_Suc_hd: "\<exists>x xs. digits (Suc k) n = x # xs \<and> isDigit x"
proof -
  have "list_all isDigit (digits (Suc k) n)" by (rule digits_all_digit)
  moreover have "length (digits (Suc k) n) = Suc k" by simp
  ultimately show ?thesis by (cases "digits (Suc k) n") (auto simp del: digits.simps)
qed

lemma digits4_hd: "\<exists>x xs. digits 4 n = x # xs \<and> isDigit x"
proof -
  have "(4::nat) = Suc 3" by simp
  then show ?thesis using digits_Suc_hd [of 3 n] by (simp del: digits.simps)
qed

lemma parseYear_yearString:
  assumes "- 999999 \<le> y" "y \<le> 999999"
  shows "parseYear (yearString y @ r) = Some (y, r)"
proof (cases "0 \<le> y \<and> y \<le> 9999")
  case True
  obtain x xs where d: "digits 4 (nat y) = x # xs" "isDigit x"
    using digits4_hd [of "nat y"] by blast
  have "nat y < 10000" using True by linarith
  then have n: "nat y < 10 ^ 4" by simp
  have "parseYear (digits 4 (nat y) @ r) = fixedNumber 4 (digits 4 (nat y) @ r)"
    using isDigit_not_ch [OF d(2)] unfolding parseYear_def d by simp
  then show ?thesis using True fixedNumber_digits [OF n, of r] by (simp add: yearString_def)
next
  case False
  have "nat \<bar>y\<bar> < 1000000" using assms by linarith
  then have n: "nat \<bar>y\<bar> < 10 ^ 6" by simp
  show ?thesis
  proof (cases "y < 0")
    case True
    then show ?thesis using False fixedNumber_digits [OF n, of r]
      by (simp add: yearString_def parseYear_def js_def)
  next
    case False1: False
    then show ?thesis using False fixedNumber_digits [OF n, of r]
      by (simp add: yearString_def parseYear_def js_def)
  qed
qed

lemma parseSeconds_canonical:
  "n < 100 \<Longrightarrow> parseSeconds (js '':'' @ digits 2 n @ js ''Z'') = Some (int n, 0, js ''Z'')"
proof -
  assume n: "n < 100"
  then have n2: "n < 10 ^ 2" by simp
  have "symbol CHR ''.'' (js ''Z'') = None" by (simp add: symbol_def js_def)
  then show ?thesis
    unfolding parseSeconds_def using symbol_ch [of "CHR '':''" "digits 2 n @ js ''Z''"]
      fixedNumber_digits [OF n2, of "js ''Z''"]
    by simp
qed

lemma parseZone_Z: "parseZone (js ''Z'') = Some (0, [])"
  by (simp add: parseZone_def js_def)

lemma replace_suffix:
  "p \<notin> set a \<Longrightarrow> replace (p # ps) rep (a @ p # ps) = a @ rep"
  by (induction a) auto

lemma dot_not_in_digits: "ch CHR ''.'' \<notin> set (digits k n)"
proof
  assume "ch CHR ''.'' \<in> set (digits k n)"
  then have "isDigit (ch CHR ''.'')"
    using digits_all_digit [of k n] by (simp add: list_all_iff)
  then show False using isDigit_not_ch by blast
qed

lemma dot_not_in_yearString: "ch CHR ''.'' \<notin> set (yearString y)"
  using dot_not_in_digits by (simp add: yearString_def js_def)

lemma dot_not_in_minutePart: "ch CHR ''.'' \<notin> set (minutePart t @ js '':00'')"
  using dot_not_in_digits dot_not_in_yearString by (simp add: minutePart_def js_def)

lemma digits_2_0: "digits 2 0 = js ''00''"
  by (simp add: numeral_2_eq_2 js_def digitChar_def ch_def)

lemma digits_3_0: "digits 3 0 = js ''000''"
  by (simp add: numeral_3_eq_3 js_def digitChar_def ch_def)

lemma toISOString_minute:
  assumes "t mod 60000 = 0"
  shows "toISOString (Some t) = Inr ((minutePart t @ js '':00'') @ js ''.000Z'')"
  using minute_aligned_fields [OF assms]
  by (simp add: toISOString_def minutePart_def digits_2_0 digits_3_0 js_def)

lemma replace_minute:
  "replace (js ''.000Z'') (js ''Z'') ((minutePart t @ js '':00'') @ js ''.000Z'') = minuteString t"
proof -
  have p: "js ''.000Z'' = ch CHR ''.'' # js ''000Z''" by (simp add: js_def)
  have a: "replace (ch CHR ''.'' # js ''000Z'') (js ''Z'')
             ((minutePart t @ js '':00'') @ ch CHR ''.'' # js ''000Z'')
           = (minutePart t @ js '':00'') @ js ''Z''"
    by (rule replace_suffix [OF dot_not_in_minutePart])
  have b: "(minutePart t @ js '':00'') @ js ''Z'' = minuteString t"
    by (simp add: minuteString_def js_def)
  show ?thesis by (simp only: p a b)
qed

lemma canonical_of_aligned:
  assumes "t mod 60000 = 0"
  shows "map_sum id (replace (js ''.000Z'') (js ''Z'')) (toISOString (Some t)) = Inr (minuteString t)"
  by (simp add: toISOString_minute [OF assms] replace_minute del: append_assoc)

lemma floor_minute_aligned: "((t div 60000) * 60000) mod 60000 = 0" for t :: int
  by simp

lemma floor_minute_range:
  fixes t :: int
  assumes "\<bar>t\<bar> \<le> 8640000000000000"
  shows "\<bar>(t div 60000) * 60000\<bar> \<le> 8640000000000000"
proof -
  have lo: "- 144000000000 \<le> t div 60000"
    using zdiv_mono1 [of "- 8640000000000000" t 60000] assms by simp
  have hi: "(t div 60000) * 60000 \<le> t"
    using mult_div_le_int [of 60000 t] by (simp add: mult.commute)
  show ?thesis using lo hi assms by linarith
qed

lemma normalizeToIsoMinuteZ_eq: "normalizeToIsoMinuteZ s = minuteCanonical (Date_parse s)"
proof (cases "Date_parse s")
  case None
  then show ?thesis
    by (simp add: normalizeToIsoMinuteZ_def minuteCanonical_def Date_of_string_def getTime_def
        Date_of_number_def toISOString_def)
next
  case (Some t)
  show ?thesis
  proof (cases "\<bar>(t div 60000) * 60000\<bar> \<le> 8640000000000000")
    case True
    then show ?thesis
      using Some canonical_of_aligned [OF floor_minute_aligned, of t]
      by (simp add: normalizeToIsoMinuteZ_def minuteCanonical_def Date_of_string_def getTime_def
          Date_of_number_def TimeClip_def)
  next
    case False
    then show ?thesis
      using Some
      by (simp add: normalizeToIsoMinuteZ_def minuteCanonical_def Date_of_string_def getTime_def
          Date_of_number_def TimeClip_def toISOString_def)
  qed
qed

lemma Day_range:
  fixes t :: int
  assumes "\<bar>t\<bar> \<le> 8640000000000000"
  shows "\<bar>Day t\<bar> \<le> 100000000"
proof -
  have lo: "- 100000000 \<le> t div 86400000"
    using zdiv_mono1 [of "- 8640000000000000" t 86400000] assms by simp
  have hi: "t div 86400000 \<le> 100000000"
    using zdiv_mono1 [of t 8640000000000000 86400000] assms by simp
  show ?thesis unfolding Day_def msPerDay_def using lo hi by linarith
qed

lemma YearFromTime_bounds:
  "\<bar>t\<bar> \<le> 8640000000000000 \<Longrightarrow> - 999999 \<le> YearFromTime t \<and> YearFromTime t \<le> 999999"
  unfolding YearFromTime_def by (rule YearFromDay_bounds [OF Day_range])

lemma minuteString_00: "minuteString t = minutePart t @ js '':'' @ digits 2 0 @ js ''Z''"
  by (simp add: minuteString_def digits_2_0 js_def)

lemma fixedNumber_2:
  "0 \<le> n \<Longrightarrow> n \<le> 99 \<Longrightarrow> fixedNumber 2 (digits 2 (nat n) @ r) = Some (n, r)"
proof -
  assume n: "0 \<le> n" "n \<le> 99"
  then have "nat n < 100" by linarith
  then have "nat n < 10 ^ 2" by simp
  then show ?thesis using fixedNumber_digits [of "nat n" 2 r] n by simp
qed

lemma Date_parse_minuteString:
  assumes range: "\<bar>t\<bar> \<le> 8640000000000000" and aligned: "t mod 60000 = 0"
  shows "Date_parse (minuteString t) = Some t"
proof -
  let ?Y = "YearFromTime t" and ?M = "MonthFromTime t + 1" and ?D = "DateFromTime t"
  let ?H = "HourFromTime t" and ?Mi = "MinFromTime t"
  have M: "0 \<le> ?M" "?M \<le> 99" "1 \<le> ?M" "?M \<le> 12"
    using MonthFromTime_bounds [of t] by simp_all
  have D: "0 \<le> ?D" "?D \<le> 99" "1 \<le> ?D" "?D \<le> 31"
    using DateFromTime_bounds [of t] by simp_all
  have H: "0 \<le> ?H" "?H \<le> 99" "?H \<le> 23"
    using time_fields_bounds [of t] by simp_all
  have Mi: "0 \<le> ?Mi" "?Mi \<le> 99" "?Mi \<le> 59"
    using time_fields_bounds [of t] by simp_all
  have s0: "SecFromTime t = 0" "msFromTime t = 0"
    using minute_aligned_fields [OF aligned] by simp_all
  have y: "\<And>r. parseYear (yearString ?Y @ r) = Some (?Y, r)"
    using YearFromTime_bounds [OF range] by (simp add: parseYear_yearString)
  have sec: "parseSeconds (js '':'' @ digits 2 0 @ js ''Z'') = Some (0, 0, js ''Z'')"
    using parseSeconds_canonical [of 0] by simp
  have val: "MakeDate (MakeDay ?Y (MonthFromTime t) ?D) (MakeTime ?H ?Mi 0 0) = t"
    using MakeTime_fields [of t] by (simp add: MakeDay_fields s0)
  have M0: "0 \<le> MonthFromTime t"
    using MonthFromTime_bounds [of t] by simp
  show ?thesis
    unfolding Date_parse_def minuteString_00 minutePart_def
    by (simp add: y symbol_ch fixedNumber_2 M D H Mi sec parseZone_Z val M0 TimeClip_def range
        del: digits.simps)
qed

lemma Date_parse_range: "Date_parse s = Some t \<Longrightarrow> \<bar>t\<bar> \<le> 8640000000000000"
  unfolding Date_parse_def
  by (auto simp: TimeClip_def split: Option.bind_splits if_splits prod.splits)

lemma normalizeToIsoMinuteZ_Some:
  assumes "Date_parse s0 = Some t"
  shows "normalizeToIsoMinuteZ s0 = Inr (minuteString ((t div 60000) * 60000))"
  using assms floor_minute_range [OF Date_parse_range [OF assms]]
  unfolding normalizeToIsoMinuteZ_eq minuteCanonical_def by simp

lemma normalizeToIsoMinuteZ_Inr:
  assumes "normalizeToIsoMinuteZ s0 = Inr s"
  obtains t where "Date_parse s0 = Some t" and "s = minuteString ((t div 60000) * 60000)"
    and "\<bar>(t div 60000) * 60000\<bar> \<le> 8640000000000000"
proof (cases "Date_parse s0")
  case None
  then have "normalizeToIsoMinuteZ s0 = Inl RangeError"
    unfolding normalizeToIsoMinuteZ_eq minuteCanonical_def by simp
  then show ?thesis using assms by simp
next
  case (Some t)
  have "s = minuteString ((t div 60000) * 60000)"
    using normalizeToIsoMinuteZ_Some [OF Some] assms by simp
  then show ?thesis
    using that [OF Some] floor_minute_range [OF Date_parse_range [OF Some]] by simp
qed

lemma normalizeToIsoMinuteZ_idempotent:
  assumes "Date_parse s = Some t"
  shows "\<exists>c. normalizeToIsoMinuteZ s = Inr c \<and> normalizeToIsoMinuteZ c = Inr c"
proof -
  let ?m = "(t div 60000) * 60000"
  have r: "\<bar>?m\<bar> \<le> 8640000000000000"
    by (rule floor_minute_range [OF Date_parse_range [OF assms]])
  have p: "Date_parse (minuteString ?m) = Some ?m"
    by (rule Date_parse_minuteString [OF r floor_minute_aligned])
  have "(?m div 60000) * 60000 = ?m" by simp
  then have "normalizeToIsoMinuteZ (minuteString ?m) = Inr (minuteString ?m)"
    using normalizeToIsoMinuteZ_Some [OF p] by simp
  then show ?thesis using normalizeToIsoMinuteZ_Some [OF assms] by blast
qed

lemma utcMinuteOf_minuteString: "utcMinuteOf (minuteString m) = nat (MinFromTime m)"
proof -
  let ?a = "yearString (YearFromTime m) @ js ''-'' @ digits 2 (nat (MonthFromTime m + 1))
     @ js ''-'' @ digits 2 (nat (DateFromTime m))
     @ js ''T'' @ digits 2 (nat (HourFromTime m)) @ js '':''"
  let ?d = "digits 2 (nat (MinFromTime m))"
  have s: "minuteString m = ?a @ (?d @ js '':00Z'')"
    by (simp add: minuteString_def minutePart_def)
  have l: "length (?a @ (?d @ js '':00Z'')) - 6 = length ?a"
    by (simp add: js_def)
  have "nat (MinFromTime m) < 100" using time_fields_bounds [of m] by linarith
  then have n: "nat (MinFromTime m) < 10 ^ 2" by simp
  have "take 2 (drop (length (minuteString m) - 6) (minuteString m)) = ?d"
    unfolding s l by simp
  then show ?thesis unfolding utcMinuteOf_def using number_digits [OF n] by simp
qed

lemma normalizeAppointment_startAt:
  assumes "body < length h" and "startAt (h ! body) = JString s0"
    and "normalizeToIsoMinuteZ s0 = Inr s"
  obtains h' where "normalizeAppointment rt h body = (h', Inr (length h))"
    and "startAt (h' ! length h) = JString s"
proof -
  have "snd (normalizeAppointment rt h body) = Inr (length h)
        \<and> startAt (fst (normalizeAppointment rt h body) ! length h) = JString s"
    unfolding normalizeAppointment_def Let_def using assms by (simp add: nth_append)
  then show ?thesis using that [of "fst (normalizeAppointment rt h body)"]
    by (metis prod.collapse)
qed

lemma startsInFuture_iff: "Date_parse s = Some t \<Longrightarrow> startsInFuture now s \<longleftrightarrow> now < t"
  by (auto simp: startsInFuture_def)

lemma Date_parse_normalized:
  assumes "normalizeToIsoMinuteZ s0 = Inr s"
  obtains t where "Date_parse s = Some t"
proof -
  obtain t where t: "s = minuteString ((t div 60000) * 60000)"
    "\<bar>(t div 60000) * 60000\<bar> \<le> 8640000000000000"
    by (rule normalizeToIsoMinuteZ_Inr [OF assms])
  have "Date_parse s = Some ((t div 60000) * 60000)"
    unfolding t(1) by (rule Date_parse_minuteString [OF t(2) floor_minute_aligned])
  then show ?thesis by (rule that)
qed

lemma shaped_append: "shaped ps s \<Longrightarrow> shaped qs r \<Longrightarrow> shaped (ps @ qs) (s @ r)"
  by (simp add: shaped_def list_all2_appendI)

lemma shaped_digits: "shaped (replicate k isDigit) (digits k n)"
proof -
  have "list_all2 (\<lambda>p c. p c) (replicate k isDigit) xs" if "list_all isDigit xs" "length xs = k" for xs
    using that by (induction xs arbitrary: k) auto
  then show ?thesis unfolding shaped_def using digits_all_digit [of k n] by simp
qed

lemma shaped_js: "shaped (map isChar cs) (js cs)"
  by (simp add: shaped_def js_def list_all2_conv_all_nth isChar_def)

lemma canonicalShape_parts:
  "canonicalShape =
     replicate 4 isDigit @ map isChar ''-'' @ replicate 2 isDigit @ map isChar ''-''
     @ replicate 2 isDigit @ map isChar ''T'' @ replicate 2 isDigit @ map isChar '':''
     @ replicate 2 isDigit @ map isChar '':00Z''"
  by (simp add: canonicalShape_def minutePrefix_def numeral_eq_Suc)

text \<open>
  Within the years 0000 to 9999 the canonical string has the form
  \<open>YYYY-MM-DDTHH:MM:00Z\<close>.
\<close>

lemma minuteString_shape:
  assumes "0 \<le> YearFromTime m" and "YearFromTime m \<le> 9999"
  shows "shaped canonicalShape (minuteString m)"
proof -
  have y: "yearString (YearFromTime m) = digits 4 (nat (YearFromTime m))"
    using assms by (simp add: yearString_def)
  show ?thesis
    unfolding canonicalShape_parts minuteString_def minutePart_def y append_assoc
    by (intro shaped_append shaped_digits shaped_js)
qed

text \<open>
  \<open>computeEndAt\<close> on a minute-aligned start is the minute canonicalization of the
  instant \<open>start + durationMin\<close> minutes, also where that instant is out of range
  and the runtime throws.
\<close>

lemma computeEndAt_eq:
  assumes "Date_parse s = Some t" and "t mod 60000 = 0"
  shows "computeEndAt s d = minuteCanonical (Some (t + d * 60000))"
proof -
  define ms where "ms = t + d * 60000"
  have al: "ms mod 60000 = 0" unfolding ms_def using assms(2) by simp
  then have fl: "(ms div 60000) * 60000 = ms" by (simp add: mod_eq_0_iff_dvd)
  have mc: "minuteCanonical (Some ms)
            = (if \<bar>ms\<bar> \<le> 8640000000000000 then Inr (minuteString ms) else Inl RangeError)"
    unfolding minuteCanonical_def by (simp only: option.case fl)
  have ce: "computeEndAt s d
            = map_sum id (replace (js ''.000Z'') (js ''Z'')) (toISOString (TimeClip ms))"
    unfolding computeEndAt_def Let_def Date_of_string_def getTime_def Date_of_number_def ms_def
    by (simp add: assms(1))
  have "computeEndAt s d = minuteCanonical (Some ms)"
  proof (cases "\<bar>ms\<bar> \<le> 8640000000000000")
    case True
    then have "TimeClip ms = Some ms" by (simp add: TimeClip_def)
    then show ?thesis unfolding ce mc using True canonical_of_aligned [OF al] by simp
  next
    case False
    then have "TimeClip ms = None" by (simp add: TimeClip_def)
    then show ?thesis unfolding ce mc using False by (simp add: toISOString_def)
  qed
  then show ?thesis unfolding ms_def .
qed

lemma YearFromDay_unique:
  assumes "DayFromYear y \<le> d" and "d < DayFromYear (y + 1)"
  shows "YearFromDay d = y"
proof -
  let ?z = "YearFromDay d"
  have c: "DayFromYear ?z \<le> d" "d < DayFromYear (?z + 1)"
    using YearFromDay_correct [of d] by simp_all
  have "\<not> ?z < y"
  proof
    assume "?z < y"
    then have "DayFromYear (?z + 1) \<le> DayFromYear y" by (intro DayFromYear_mono) simp
    then show False using c(2) assms(1) by linarith
  qed
  moreover have "\<not> y < ?z"
  proof
    assume "y < ?z"
    then have "DayFromYear (y + 1) \<le> DayFromYear ?z" by (intro DayFromYear_mono) simp
    then show False using c(1) assms(2) by linarith
  qed
  ultimately show ?thesis by linarith
qed

lemma js_append: "js a @ js b = js (a @ b)" "js a @ js b @ r = js (a @ b) @ r"
  by (simp_all add: js_def)

text \<open>The first minute-aligned instant of the year 10000 read below, as a string.\<close>

lemma minuteString_year_10000:
  "minuteString 253402302600000 = js ''+010000-01-01T00:30:00Z''"
proof -
  have d: "Day 253402302600000 = 2932897"
    by (simp add: Day_def msPerDay_def)
  have y: "YearFromTime 253402302600000 = 10000"
    unfolding YearFromTime_def d by (rule YearFromDay_unique) (simp_all add: DayFromYear_def)
  have w: "DayWithinYear 253402302600000 = 0"
    by (simp add: DayWithinYear_def y d DayFromYear_def)
  have m: "MonthFromTime 253402302600000 = 0"
    by (simp add: MonthFromTime_def w Let_def)
  have f: "DateFromTime 253402302600000 = 1" "HourFromTime 253402302600000 = 0"
    "MinFromTime 253402302600000 = 30"
    by (simp_all add: DateFromTime_def m w Let_def HourFromTime_def MinFromTime_def
        msPerHour_def msPerMinute_def)
  have dg: "digits 6 10000 = js ''010000''" "digits 2 (Suc 0) = js ''01''"
    "digits 2 0 = js ''00''" "digits 2 30 = js ''30''"
    by code_simp+
  have "yearString 10000 = js ''+010000''"
    by (simp add: yearString_def dg js_append)
  then show ?thesis
    by (simp add: minuteString_def minutePart_def y m f dg js_append)
qed

section \<open>The claims\<close>

text \<open>
  C2. For every payload, \<open>validateAppointment\<close> runs every field check, none cut
  short by the failure of another, and returns the messages in the fixed order
  serviceId, startAt, clientName, e-mail or phone presence, e-mail format, phone
  format, name length: the result is the list of the messages of exactly the rules the
  payload violates, in the order of the rules.
\<close>

theorem validateAppointment_all_checks_in_order:
  "validateAppointment d = map snd (filter (\<lambda>r. fst r d) fieldRules)"
proof -
  have name: "(typeof (clientName d) \<noteq> TString \<or> length (trim (strOf (clientName d))) = 0)
      = (\<not> (typeof (clientName d) = TString \<and> trim (strOf (clientName d)) \<noteq> []))"
    by auto
  have contact: "(\<not> ToBoolean (clientEmail d) \<and> \<not> ToBoolean (clientPhone d))
      = (\<not> (ToBoolean (clientEmail d) \<or> ToBoolean (clientPhone d)))"
    by auto
  show ?thesis
    unfolding fieldRules_def filter_if validateAppointment_blocks startAt_block
      isPositiveInteger_iff [symmetric] present_iff [symmetric] name contact
    by (simp only: append_assoc filter.simps list.map append_Nil2)
qed


theorem validateAppointment_all_checks_in_order_witness:
  "validateAppointment
     \<lparr>serviceId = JNumber (Finite 0), startAt = JString (js ''2025-09-20T18:00:00Z''),
      clientName = JString (js ''  ''), clientEmail = JString (js ''a@b''),
      clientPhone = JString (js ''123'')\<rparr>
   = [js ''serviceId must be a positive integer'',
      js ''startAt must be ISO 8601 without seconds/milliseconds (e.g., 2025-09-20T18:00Z)'',
      js ''clientName is required'',
      js ''clientEmail must be a valid email address'',
      js ''clientPhone must be at least 7 digits long'']"
proof -
  have "map snd (filter (\<lambda>r. fst r
          \<lparr>serviceId = JNumber (Finite 0), startAt = JString (js ''2025-09-20T18:00:00Z''),
           clientName = JString (js ''  ''), clientEmail = JString (js ''a@b''),
           clientPhone = JString (js ''123'')\<rparr>) fieldRules)
   = [js ''serviceId must be a positive integer'',
      js ''startAt must be ISO 8601 without seconds/milliseconds (e.g., 2025-09-20T18:00Z)'',
      js ''clientName is required'',
      js ''clientEmail must be a valid email address'',
      js ''clientPhone must be at least 7 digits long'']"
    by code_simp
  then show ?thesis
    by (simp only: validateAppointment_all_checks_in_order)
qed

text \<open>
  C3. A \<open>startAt\<close> string with a seconds or fraction part gets the ISO-format error;
  a string of the minute-precision shape that parses to a valid date-time gets no
  \<open>startAt\<close> error.
\<close>

theorem startAt_seconds_rejected_minute_shape_accepted:
  "(hasSecondsPart s \<and> startAt d = JString s \<longrightarrow>
      js ''startAt must be ISO 8601 without seconds/milliseconds (e.g., 2025-09-20T18:00Z)''
        \<in> set (validateAppointment d))
   \<and> (minutePrecisionShape s \<and> Date_parse s \<noteq> None \<and> startAt d = JString s \<longrightarrow>
      validateStartAtMinuteOnly (startAt d) = None
      \<and> js ''startAt must be a string'' \<notin> set (validateAppointment d)
      \<and> js ''startAt must be ISO 8601 without seconds/milliseconds (e.g., 2025-09-20T18:00Z)''
          \<notin> set (validateAppointment d)
      \<and> js ''startAt is not a valid datetime'' \<notin> set (validateAppointment d))"
proof (intro conjI impI)
  assume "hasSecondsPart s \<and> startAt d = JString s"
  then show "js ''startAt must be ISO 8601 without seconds/milliseconds (e.g., 2025-09-20T18:00Z)''
        \<in> set (validateAppointment d)"
    using hasSecondsPart_no_shape [of s]
    unfolding validateAppointment_blocks startAt_block by simp
next
  assume a: "minutePrecisionShape s \<and> Date_parse s \<noteq> None \<and> startAt d = JString s"
  then show "validateStartAtMinuteOnly (startAt d) = None"
    by (simp add: validateStartAtMinuteOnly_def test_ISO_iff getTime_def Date_of_string_def)
  show "js ''startAt must be a string'' \<notin> set (validateAppointment d)"
    using a unfolding validateAppointment_blocks startAt_block by simp
  show "js ''startAt must be ISO 8601 without seconds/milliseconds (e.g., 2025-09-20T18:00Z)''
          \<notin> set (validateAppointment d)"
    using a unfolding validateAppointment_blocks startAt_block by simp
  show "js ''startAt is not a valid datetime'' \<notin> set (validateAppointment d)"
    using a unfolding validateAppointment_blocks startAt_block by simp
qed

theorem startAt_seconds_rejected_minute_shape_accepted_witness:
  "js ''startAt must be ISO 8601 without seconds/milliseconds (e.g., 2025-09-20T18:00Z)''
     \<in> set (validateAppointment
         \<lparr>serviceId = JNumber (Finite 1), startAt = JString (js ''2025-09-20T18:00:00Z''),
          clientName = JString (js ''Jane Doe''), clientEmail = JString (js ''jane@example.com''),
          clientPhone = JUndefined\<rparr>)
   \<and> validateStartAtMinuteOnly (JString (js ''2025-09-20T18:00+01:00'')) = None
   \<and> js ''startAt is not a valid datetime''
     \<notin> set (validateAppointment
         \<lparr>serviceId = JNumber (Finite 1), startAt = JString (js ''2025-09-20T18:00+01:00''),
          clientName = JString (js ''Jane Doe''), clientEmail = JString (js ''jane@example.com''),
          clientPhone = JUndefined\<rparr>)"
proof -
  let ?p = "\<lparr>serviceId = JNumber (Finite 1), startAt = JString (js ''2025-09-20T18:00:00Z''),
          clientName = JString (js ''Jane Doe''), clientEmail = JString (js ''jane@example.com''),
          clientPhone = JUndefined\<rparr>"
  let ?q = "\<lparr>serviceId = JNumber (Finite 1), startAt = JString (js ''2025-09-20T18:00+01:00''),
          clientName = JString (js ''Jane Doe''), clientEmail = JString (js ''jane@example.com''),
          clientPhone = JUndefined\<rparr>"
  have h1: "hasSecondsPart (js ''2025-09-20T18:00:00Z'')"
    by code_simp
  have h2: "minutePrecisionShape (js ''2025-09-20T18:00+01:00'')
            \<and> Date_parse (js ''2025-09-20T18:00+01:00'') \<noteq> None"
    by code_simp
  show ?thesis
    using startAt_seconds_rejected_minute_shape_accepted [of "js ''2025-09-20T18:00:00Z''" ?p]
      startAt_seconds_rejected_minute_shape_accepted [of "js ''2025-09-20T18:00+01:00''" ?q]
      h1 h2
    by simp
qed

text \<open>
  C9. \<open>normalizeAppointment\<close> does not mutate its input: after the call the object
  \<open>data\<close> refers to is what it was, as is every object that existed before, and a
  returned reference is that of a fresh object. This holds also when the call throws.
\<close>

theorem normalizeAppointment_frame:
  "data < length h \<Longrightarrow>
     fst (normalizeAppointment rt h data) ! data = h ! data
     \<and> take (length h) (fst (normalizeAppointment rt h data)) = h
     \<and> (case snd (normalizeAppointment rt h data) of
          Inr d \<Rightarrow> d = length h \<and> d < length (fst (normalizeAppointment rt h data))
        | Inl e \<Rightarrow> True)"
proof -
  assume lt: "data < length h"
  have t: "take (length h) (fst (normalizeAppointment rt h data)) = h"
    unfolding normalizeAppointment_def Let_def by (simp split: sum.splits)
  have "fst (normalizeAppointment rt h data) ! data
        = take (length h) (fst (normalizeAppointment rt h data)) ! data"
    using lt by simp
  then have "fst (normalizeAppointment rt h data) ! data = h ! data"
    unfolding t .
  moreover have "(case snd (normalizeAppointment rt h data) of
          Inr d \<Rightarrow> d = length h \<and> d < length (fst (normalizeAppointment rt h data))
        | Inl e \<Rightarrow> True)"
    unfolding normalizeAppointment_def Let_def by (simp split: sum.splits)
  ultimately show ?thesis using t by simp
qed

theorem normalizeAppointment_frame_witness:
  "(0::nat) < length
       [\<lparr>serviceId = JNumber (Finite 1), startAt = JString (js ''2025-09-20T18:00Z''),
         clientName = JString (js '' Jane Doe ''), clientEmail = JString (js ''jane@example.com''),
         clientPhone = JUndefined\<rparr>]
   \<and> fst (normalizeAppointment
            \<lparr>toLowerCase = id, NumberToString = (\<lambda>n. []), StringToNumber = (\<lambda>s. NaN),
             ObjectToString = (\<lambda>r. [])\<rparr>
            [\<lparr>serviceId = JNumber (Finite 1), startAt = JString (js ''2025-09-20T18:00Z''),
              clientName = JString (js '' Jane Doe ''),
              clientEmail = JString (js ''jane@example.com''), clientPhone = JUndefined\<rparr>] 0) ! 0
       = \<lparr>serviceId = JNumber (Finite 1), startAt = JString (js ''2025-09-20T18:00Z''),
          clientName = JString (js '' Jane Doe ''), clientEmail = JString (js ''jane@example.com''),
          clientPhone = JUndefined\<rparr>"
  using normalizeAppointment_frame
    [of 0 "[\<lparr>serviceId = JNumber (Finite 1), startAt = JString (js ''2025-09-20T18:00Z''),
              clientName = JString (js '' Jane Doe ''),
              clientEmail = JString (js ''jane@example.com''), clientPhone = JUndefined\<rparr>]"
        "\<lparr>toLowerCase = id, NumberToString = (\<lambda>n. []), StringToNumber = (\<lambda>s. NaN),
             ObjectToString = (\<lambda>r. [])\<rparr>"]
  by simp

text \<open>
  C10. A contact field that is truthy but not a string satisfies the presence
  requirement, and its format and length checks are skipped; in particular a payload
  with a valid serviceId, startAt and clientName, no e-mail and a truthy number as
  clientPhone passes with no error. A contact field that is the empty string is
  treated by the validator exactly as an absent one.
\<close>

theorem nonstring_contact_skips_checks:
  "(ToBoolean (clientEmail d) \<and> typeof (clientEmail d) \<noteq> TString \<longrightarrow>
      js ''Either clientEmail or clientPhone must be provided'' \<notin> set (validateAppointment d)
      \<and> js ''clientEmail must be a valid email address'' \<notin> set (validateAppointment d)
      \<and> js ''clientEmail is too long'' \<notin> set (validateAppointment d))
   \<and> (ToBoolean (clientPhone d) \<and> typeof (clientPhone d) \<noteq> TString \<longrightarrow>
      js ''Either clientEmail or clientPhone must be provided'' \<notin> set (validateAppointment d)
      \<and> js ''clientPhone must be at least 7 digits long'' \<notin> set (validateAppointment d)
      \<and> js ''clientPhone is too long'' \<notin> set (validateAppointment d))
   \<and> (isPositiveInteger (serviceId d)
       \<and> typeof (startAt d) = TString \<and> minutePrecisionShape (strOf (startAt d))
       \<and> Date_parse (strOf (startAt d)) \<noteq> None
       \<and> typeof (clientName d) = TString \<and> trim (strOf (clientName d)) \<noteq> []
       \<and> length (trim (strOf (clientName d))) \<le> 120
       \<and> clientEmail d = JUndefined
       \<and> clientPhone d = JNumber n \<and> ToBoolean (JNumber n) \<longrightarrow>
      validateAppointment d = [])
   \<and> (clientEmail d = JString [] \<longrightarrow>
      validateAppointment d = validateAppointment (d\<lparr>clientEmail := JUndefined\<rparr>))
   \<and> (clientPhone d = JString [] \<longrightarrow>
      validateAppointment d = validateAppointment (d\<lparr>clientPhone := JUndefined\<rparr>))"
proof (intro conjI impI)
  assume a: "ToBoolean (clientEmail d) \<and> typeof (clientEmail d) \<noteq> TString"
  show "js ''Either clientEmail or clientPhone must be provided'' \<notin> set (validateAppointment d)"
    using a startAt_block_set [of "startAt d"]
    unfolding validateAppointment_blocks by auto
  show "js ''clientEmail must be a valid email address'' \<notin> set (validateAppointment d)"
    using a startAt_block_set [of "startAt d"]
    unfolding validateAppointment_blocks by auto
  show "js ''clientEmail is too long'' \<notin> set (validateAppointment d)"
    using a startAt_block_set [of "startAt d"]
    unfolding validateAppointment_blocks by auto
next
  assume a: "ToBoolean (clientPhone d) \<and> typeof (clientPhone d) \<noteq> TString"
  show "js ''Either clientEmail or clientPhone must be provided'' \<notin> set (validateAppointment d)"
    using a startAt_block_set [of "startAt d"]
    unfolding validateAppointment_blocks by auto
  show "js ''clientPhone must be at least 7 digits long'' \<notin> set (validateAppointment d)"
    using a startAt_block_set [of "startAt d"]
    unfolding validateAppointment_blocks by auto
  show "js ''clientPhone is too long'' \<notin> set (validateAppointment d)"
    using a startAt_block_set [of "startAt d"]
    unfolding validateAppointment_blocks by auto
next
  assume a: "isPositiveInteger (serviceId d)
       \<and> typeof (startAt d) = TString \<and> minutePrecisionShape (strOf (startAt d))
       \<and> Date_parse (strOf (startAt d)) \<noteq> None
       \<and> typeof (clientName d) = TString \<and> trim (strOf (clientName d)) \<noteq> []
       \<and> length (trim (strOf (clientName d))) \<le> 120
       \<and> clientEmail d = JUndefined
       \<and> clientPhone d = JNumber n \<and> ToBoolean (JNumber n)"
  then have "\<not> (typeof (serviceId d) \<noteq> TNumber \<or> \<not> Number_isInteger (serviceId d)
         \<or> lessEqZero (serviceId d))"
    using isPositiveInteger_iff [of "serviceId d"] by blast
  with a show "validateAppointment d = []"
    unfolding validateAppointment_blocks startAt_block by simp
next
  assume "clientEmail d = JString []"
  then show "validateAppointment d = validateAppointment (d\<lparr>clientEmail := JUndefined\<rparr>)"
    unfolding validateAppointment_blocks by simp
next
  assume "clientPhone d = JString []"
  then show "validateAppointment d = validateAppointment (d\<lparr>clientPhone := JUndefined\<rparr>)"
    unfolding validateAppointment_blocks by simp
qed

theorem nonstring_contact_skips_checks_witness:
  "js ''Either clientEmail or clientPhone must be provided''
     \<notin> set (validateAppointment
         \<lparr>serviceId = JNumber (Finite 1), startAt = JString (js ''2025-09-20T18:00Z''),
          clientName = JString (js ''Jane Doe''), clientEmail = JBoolean True,
          clientPhone = JObject 0\<rparr>)
   \<and> js ''clientEmail must be a valid email address''
     \<notin> set (validateAppointment
         \<lparr>serviceId = JNumber (Finite 1), startAt = JString (js ''2025-09-20T18:00Z''),
          clientName = JString (js ''Jane Doe''), clientEmail = JBoolean True,
          clientPhone = JObject 0\<rparr>)
   \<and> js ''clientPhone must be at least 7 digits long''
     \<notin> set (validateAppointment
         \<lparr>serviceId = JNumber (Finite 1), startAt = JString (js ''2025-09-20T18:00Z''),
          clientName = JString (js ''Jane Doe''), clientEmail = JBoolean True,
          clientPhone = JObject 0\<rparr>)
   \<and> validateAppointment
         \<lparr>serviceId = JNumber (Finite 1), startAt = JString (js ''2025-09-20T18:00Z''),
          clientName = JString (js ''Jane Doe''), clientEmail = JUndefined,
          clientPhone = JNumber (Finite 5)\<rparr> = []
   \<and> validateAppointment
         \<lparr>serviceId = JNumber (Finite 1), startAt = JString (js ''2025-09-20T18:00Z''),
          clientName = JString (js ''Jane Doe''), clientEmail = JString [],
          clientPhone = JString []\<rparr>
       = validateAppointment
         \<lparr>serviceId = JNumber (Finite 1), startAt = JString (js ''2025-09-20T18:00Z''),
          clientName = JString (js ''Jane Doe''), clientEmail = JUndefined,
          clientPhone = JString []\<rparr>
   \<and> validateAppointment
         \<lparr>serviceId = JNumber (Finite 1), startAt = JString (js ''2025-09-20T18:00Z''),
          clientName = JString (js ''Jane Doe''), clientEmail = JString [],
          clientPhone = JString []\<rparr>
       = validateAppointment
         \<lparr>serviceId = JNumber (Finite 1), startAt = JString (js ''2025-09-20T18:00Z''),
          clientName = JString (js ''Jane Doe''), clientEmail = JString [],
          clientPhone = JUndefined\<rparr>"
proof -
  let ?p = "\<lparr>serviceId = JNumber (Finite 1), startAt = JString (js ''2025-09-20T18:00Z''),
          clientName = JString (js ''Jane Doe''), clientEmail = JBoolean True,
          clientPhone = JObject 0\<rparr>"
  let ?q = "\<lparr>serviceId = JNumber (Finite 1), startAt = JString (js ''2025-09-20T18:00Z''),
          clientName = JString (js ''Jane Doe''), clientEmail = JUndefined,
          clientPhone = JNumber (Finite 5)\<rparr>"
  let ?r = "\<lparr>serviceId = JNumber (Finite 1), startAt = JString (js ''2025-09-20T18:00Z''),
          clientName = JString (js ''Jane Doe''), clientEmail = JString [],
          clientPhone = JString []\<rparr>"
  have hp: "ToBoolean (clientEmail ?p) \<and> typeof (clientEmail ?p) \<noteq> TString"
    "ToBoolean (clientPhone ?p) \<and> typeof (clientPhone ?p) \<noteq> TString"
    by simp_all
  have hq: "isPositiveInteger (serviceId ?q)
       \<and> typeof (startAt ?q) = TString \<and> minutePrecisionShape (strOf (startAt ?q))
       \<and> Date_parse (strOf (startAt ?q)) \<noteq> None
       \<and> typeof (clientName ?q) = TString \<and> trim (strOf (clientName ?q)) \<noteq> []
       \<and> length (trim (strOf (clientName ?q))) \<le> 120
       \<and> clientEmail ?q = JUndefined
       \<and> clientPhone ?q = JNumber (Finite 5) \<and> ToBoolean (JNumber (Finite 5))"
    by code_simp
  have hr: "clientEmail ?r = JString []" "clientPhone ?r = JString []"
    by simp_all
  have 1: "js ''Either clientEmail or clientPhone must be provided''
              \<notin> set (validateAppointment ?p)
            \<and> js ''clientEmail must be a valid email address'' \<notin> set (validateAppointment ?p)
            \<and> js ''clientPhone must be at least 7 digits long'' \<notin> set (validateAppointment ?p)"
    using nonstring_contact_skips_checks [of ?p] hp by blast
  have 2: "validateAppointment ?q = []"
    using nonstring_contact_skips_checks [of ?q "Finite 5"] hq by blast
  have 3: "validateAppointment ?r = validateAppointment (?r\<lparr>clientEmail := JUndefined\<rparr>)"
    "validateAppointment ?r = validateAppointment (?r\<lparr>clientPhone := JUndefined\<rparr>)"
    using nonstring_contact_skips_checks [of ?r] hr by blast+
  show ?thesis
    using 1 2 3 by simp
qed


text \<open>
  C5. For every normalized timestamp, \<open>enforceFifteenMinuteGrid\<close> returns no error
  exactly when the UTC minute of the timestamp is a multiple of 15, and otherwise
  returns its one message.
\<close>

theorem grid_check_iff_minute_multiple_of_15:
  assumes "normalizeToIsoMinuteZ s0 = Inr s"
  shows "(enforceFifteenMinuteGrid s = None \<longleftrightarrow> utcMinuteOf s mod 15 = 0)
         \<and> (enforceFifteenMinuteGrid s = None
            \<or> enforceFifteenMinuteGrid s = Some (js ''startAt must align to 15-minute increments''))"
proof -
  obtain t where t: "s = minuteString ((t div 60000) * 60000)"
    "\<bar>(t div 60000) * 60000\<bar> \<le> 8640000000000000"
    by (rule normalizeToIsoMinuteZ_Inr [OF assms])
  define m where "m = (t div 60000) * 60000"
  have p: "Date_parse s = Some m"
    unfolding t(1) m_def by (rule Date_parse_minuteString [OF t(2) floor_minute_aligned])
  have u: "MinFromTime m = int (utcMinuteOf s)"
    unfolding t(1) m_def utcMinuteOf_minuteString
    using time_fields_bounds [of "(t div 60000) * 60000"] by simp
  have "int (utcMinuteOf s) mod 15 = int (utcMinuteOf s mod 15)"
    by (simp add: zmod_int)
  then have "MinFromTime m mod 15 = 0 \<longleftrightarrow> utcMinuteOf s mod 15 = 0"
    unfolding u by simp
  then show ?thesis
    by (simp add: enforceFifteenMinuteGrid_def Date_of_string_def getUTCMinutes_def p)
qed

theorem grid_check_iff_minute_multiple_of_15_witness:
  "normalizeToIsoMinuteZ (js ''2025-09-20T18:20+02:00'') = Inr (js ''2025-09-20T16:20:00Z'')
   \<and> (enforceFifteenMinuteGrid (js ''2025-09-20T16:20:00Z'') = None
        \<longleftrightarrow> utcMinuteOf (js ''2025-09-20T16:20:00Z'') mod 15 = 0)
   \<and> utcMinuteOf (js ''2025-09-20T16:20:00Z'') = 20
   \<and> enforceFifteenMinuteGrid (js ''2025-09-20T16:20:00Z'')
       = Some (js ''startAt must align to 15-minute increments'')"
proof -
  have n: "normalizeToIsoMinuteZ (js ''2025-09-20T18:20+02:00'') = Inr (js ''2025-09-20T16:20:00Z'')"
    by code_simp
  have u: "utcMinuteOf (js ''2025-09-20T16:20:00Z'') = 20"
    by code_simp
  show ?thesis
    using grid_check_iff_minute_multiple_of_15 [OF n] n u by auto
qed

end
